theory Spec2Isabelle
  imports Complex_Main "HOL-Library.Word" "HOL-Library.Log_Nat"
begin

unbundle bit_operations_syntax

section \<open>Bounding-box camera: the geometric core of Ogre2BoundingBoxCamera\<close>

text \<open>
  The development embeds the pure computations of the OGRE2 bounding-box camera:
  the Cohen-Sutherland viewport clipper, the scan of the identifier buffer, the 2D merge
  of per-part boxes, the Bresenham line rasterizer and the screen conversion of the
  full-projection path.

  Conventions. A C++ \<open>double\<close> is the real number it denotes. In the clipper, whose
  behaviour depends on it, the arithmetic is binary64: every operation rounds to the
  nearest double. In the other parts the operations are exact (rounding is not modelled
  there) and OGRE's \<open>Real\<close> is a real number. Infinities and NaN operands are not
  modelled. The one NaN the code produces on purpose,
  \<open>math::Vector2d::NaN\<close>, is a constructor of the clipper's result type. \<open>uint32_t\<close> is
  \<open>32 word\<close>, \<open>uint8_t\<close> and \<open>unsigned char\<close> are \<open>8 word\<close>. The \<open>int\<close> outcodes of the
  clipper and the \<open>int\<close> pixel coordinates of the rasterizer are mathematical integers;
  they stay far from the limits of a 32-bit \<open>int\<close>. A read or write outside a buffer is a
  fault value of the model.
\<close>

subsection \<open>Doubles\<close>

text \<open>
  The arithmetic of the clipper is binary64. A value of type \<open>double\<close> is the real number it
  denotes, and every operation gives the exact result rounded to the nearest double, ties
  to the even significand. \<open>round_to_even\<close> rounds to an integer that way.
\<close>
definition round_to_even :: "real \<Rightarrow> int" where
  "round_to_even x =
     (let n = \<lfloor>x\<rfloor>; r = x - of_int n
      in if r < 1 / 2 then n else if 1 / 2 < r then n + 1 else if even n then n else n + 1)"

text \<open>
  \<open>round_double x\<close> is the double nearest to \<open>x\<close>. In units of the smallest subnormal,
  \<open>2\<^sup>-\<^sup>1\<^sup>0\<^sup>7\<^sup>4\<close>, the doubles are the integers of at most 53 bits shifted left: \<open>k\<close> is the
  number of low bits the significand of \<open>x\<close> cannot keep (none for a subnormal). A result
  of magnitude \<open>2\<^sup>1\<^sup>0\<^sup>2\<^sup>4\<close> or more is an overflow; the code would go on with an infinity,
  which the model does not follow (\<open>None\<close>).
\<close>
definition round_double :: "real \<Rightarrow> real option" where
  "round_double x =
     (let k = nat (bitlen \<lfloor>\<bar>x\<bar> * 2 ^ 1074\<rfloor> - 53);
          d = of_int (round_to_even (x * 2 ^ 1074 / 2 ^ k)) * 2 ^ k / 2 ^ 1074
      in if \<bar>d\<bar> < 2 ^ 1024 then Some d else None)"

text \<open>The real numbers that are finite doubles.\<close>
definition is_double :: "real \<Rightarrow> bool" where
  "is_double x \<longleftrightarrow> round_double x = Some x"

text \<open>The multiples of the smallest subnormal; every finite double is one.\<close>
definition double_grid :: "real set" where
  "double_grid = range (\<lambda>i :: int. real_of_int i / 2 ^ 1074)"

subsection \<open>ViewportClipper: Cohen-Sutherland\<close>

type_synonym Vector2d = "real \<times> real"

text \<open>The viewport bounds, in the order \<open>xmin, ymin, xmax, ymax\<close>.\<close>
type_synonym Vector4d = "real \<times> real \<times> real \<times> real"

definition kInside :: int where "kInside = 0"
definition kLeft :: int where "kLeft = 1"
definition kRight :: int where "kRight = 2"
definition kBottom :: int where "kBottom = 4"
definition kTop :: int where "kTop = 8"

definition LocationRelativeToViewPort :: "Vector4d \<Rightarrow> real \<Rightarrow> real \<Rightarrow> int" where
  "LocationRelativeToViewPort bounds x y =
     (case bounds of (xmin, ymin, xmax, ymax) \<Rightarrow>
        let relativeLocation = kInside;
            relativeLocation =
              (if x < xmin then relativeLocation OR kLeft
               else if x > xmax then relativeLocation OR kRight
               else relativeLocation);
            relativeLocation =
              (if y < ymin then relativeLocation OR kBottom
               else if y > ymax then relativeLocation OR kTop
               else relativeLocation)
        in relativeLocation)"

text \<open>How the \<open>while (true)\<close> loop of \<open>ClipToViewPort\<close> is left.\<close>
datatype clip_break =
    BothInside      \<comment> \<open>\<open>accept = true; break\<close>\<close>
  | SharedZone      \<comment> \<open>the trivial reject\<close>
  | InternalError   \<comment> \<open>the \<open>ignerr\<close> branch\<close>
  | ZeroDivisor     \<comment> \<open>a division by zero: the code would go on with an infinity or a NaN\<close>
  | Overflow        \<comment> \<open>a result beyond the finite doubles: the same\<close>

text \<open>The loop variables \<open>x0, y0, x1, y1, location0, location1\<close>.\<close>
type_synonym clip_state = "real \<times> real \<times> real \<times> real \<times> int \<times> int"

text \<open>
  The expression \<open>a0 + (a1 - a0) * (bm - b0) / (b1 - b0)\<close> of the four branches, evaluated
  as C++ evaluates it in \<open>double\<close>: the two differences, their product, the divisor, the
  quotient and the sum, each rounded.
\<close>
definition intersect_at :: "real \<Rightarrow> real \<Rightarrow> real \<Rightarrow> real \<Rightarrow> real \<Rightarrow> clip_break + real" where
  "intersect_at a0 a1 b0 b1 bm =
     (case round_double (a1 - a0) of None \<Rightarrow> Inl Overflow | Some da \<Rightarrow>
     (case round_double (bm - b0) of None \<Rightarrow> Inl Overflow | Some db \<Rightarrow>
     (case round_double (da * db) of None \<Rightarrow> Inl Overflow | Some num \<Rightarrow>
     (case round_double (b1 - b0) of None \<Rightarrow> Inl Overflow | Some den \<Rightarrow>
        if den = 0 then Inl ZeroDivisor
        else
     (case round_double (num / den) of None \<Rightarrow> Inl Overflow | Some q \<Rightarrow>
     (case round_double (a0 + q) of None \<Rightarrow> Inl Overflow | Some r \<Rightarrow> Inr r))))))"

text \<open>
  The intersection of the line with the boundary selected by \<open>outerLocation\<close>, tested in
  the order top, bottom, right, left.
\<close>
definition clip_intersection ::
    "Vector4d \<Rightarrow> clip_state \<Rightarrow> int \<Rightarrow> clip_break + (real \<times> real)" where
  "clip_intersection bounds s outerLocation =
     (case bounds of (xmin, ymin, xmax, ymax) \<Rightarrow>
     (case s of (x0, y0, x1, y1, location0, location1) \<Rightarrow>
        if outerLocation AND kTop \<noteq> 0 then
          (case intersect_at x0 x1 y0 y1 ymax of
             Inl brk \<Rightarrow> Inl brk
           | Inr x \<Rightarrow> Inr (x, ymax))
        else if outerLocation AND kBottom \<noteq> 0 then
          (case intersect_at x0 x1 y0 y1 ymin of
             Inl brk \<Rightarrow> Inl brk
           | Inr x \<Rightarrow> Inr (x, ymin))
        else if outerLocation AND kRight \<noteq> 0 then
          (case intersect_at y0 y1 x0 x1 xmax of
             Inl brk \<Rightarrow> Inl brk
           | Inr y \<Rightarrow> Inr (xmax, y))
        else if outerLocation AND kLeft \<noteq> 0 then
          (case intersect_at y0 y1 x0 x1 xmin of
             Inl brk \<Rightarrow> Inl brk
           | Inr y \<Rightarrow> Inr (xmin, y))
        else Inl InternalError))"

text \<open>
  One pass through the loop body: \<open>Inl\<close> is a \<open>break\<close> with the state it leaves, \<open>Inr\<close>
  the state of the next iteration.
\<close>
definition clip_body ::
    "Vector4d \<Rightarrow> clip_state \<Rightarrow> (clip_break \<times> clip_state) + clip_state" where
  "clip_body bounds s =
     (case s of (x0, y0, x1, y1, location0, location1) \<Rightarrow>
        if location0 OR location1 = 0 then Inl (BothInside, s)
        else if location0 AND location1 \<noteq> 0 then Inl (SharedZone, s)
        else
          let outerLocation = (if location1 > location0 then location1 else location0)
          in (case clip_intersection bounds s outerLocation of
                Inl brk \<Rightarrow> Inl (brk, s)
              | Inr (x, y) \<Rightarrow>
                  if outerLocation = location0
                  then Inr (x, y, x1, y1, LocationRelativeToViewPort bounds x y, location1)
                  else Inr (x0, y0, x, y, location0, LocationRelativeToViewPort bounds x y)))"

text \<open>The loop; \<open>None\<close> when it runs forever.\<close>
partial_function (option) clip_loop ::
    "Vector4d \<Rightarrow> clip_state \<Rightarrow> (clip_break \<times> clip_state) option" where
  "clip_loop bounds s =
     (case clip_body bounds s of
        Inl r \<Rightarrow> Some r
      | Inr s' \<Rightarrow> clip_loop bounds s')"

declare clip_loop.simps [code]

text \<open>
  The value returned: the clipped endpoints, or the pair
  \<open>{math::Vector2d::NaN, math::Vector2d::NaN}\<close>.
\<close>
datatype clip_result = IsFinite: Endpoints (first: Vector2d) (second: Vector2d) | NaNPair

definition clip_init :: "Vector4d \<Rightarrow> Vector2d \<Rightarrow> Vector2d \<Rightarrow> clip_state" where
  "clip_init bounds p0 p1 =
     (fst p0, snd p0, fst p1, snd p1,
      LocationRelativeToViewPort bounds (fst p0) (snd p0),
      LocationRelativeToViewPort bounds (fst p1) (snd p1))"

text \<open>
  \<open>None\<close>: the call has no result in the model (the loop runs forever, or it left the
  finite doubles).
\<close>
definition ClipToViewPort :: "Vector4d \<Rightarrow> Vector2d \<Rightarrow> Vector2d \<Rightarrow> clip_result option" where
  "ClipToViewPort bounds p0 p1 =
     (case clip_loop bounds (clip_init bounds p0 p1) of
        None \<Rightarrow> None
      | Some (brk, (x0, y0, x1, y1, location0, location1)) \<Rightarrow>
          (case brk of
             BothInside \<Rightarrow> Some (Endpoints (x0, y0) (x1, y1))
           | SharedZone \<Rightarrow> Some NaNPair
           | InternalError \<Rightarrow> Some NaNPair
           | ZeroDivisor \<Rightarrow> None
           | Overflow \<Rightarrow> None))"

definition AddToViewportLines ::
    "Vector4d \<Rightarrow> Vector2d \<Rightarrow> Vector2d \<Rightarrow> Vector2d list \<Rightarrow> Vector2d list option" where
  "AddToViewportLines bounds p0 p1 lines =
     (case ClipToViewPort bounds p0 p1 of
        None \<Rightarrow> None
      | Some endpoints \<Rightarrow>
          if IsFinite endpoints
          then Some (lines @ [first endpoints, second endpoints])
          else Some lines)"

text \<open>
  The points inside the viewport, and the boundary coordinate of one side of it.
\<close>
fun in_bounds :: "Vector4d \<Rightarrow> Vector2d \<Rightarrow> bool" where
  "in_bounds (xmin, ymin, xmax, ymax) (x, y) \<longleftrightarrow>
     xmin \<le> x \<and> x \<le> xmax \<and> ymin \<le> y \<and> y \<le> ymax"

definition on_boundary :: "Vector4d \<Rightarrow> int \<Rightarrow> Vector2d \<Rightarrow> bool" where
  "on_boundary bounds side p =
     (case bounds of (xmin, ymin, xmax, ymax) \<Rightarrow>
        if side = kTop then snd p = ymax
        else if side = kBottom then snd p = ymin
        else if side = kRight then fst p = xmax
        else fst p = xmin)"

text \<open>
  The calls of \<open>AddToViewportLines\<close> on one \<open>clippedVertices\<close> vector, as \<open>DrawBoundingBox\<close>
  makes them for the edges of a box, starting from the empty vector.
\<close>
fun AddEdgesToViewportLines ::
    "Vector4d \<Rightarrow> (Vector2d \<times> Vector2d) list \<Rightarrow> Vector2d list \<Rightarrow> Vector2d list option" where
  "AddEdgesToViewportLines bounds [] lines = Some lines"
| "AddEdgesToViewportLines bounds ((p0, p1) # edges) lines =
     (case AddToViewportLines bounds p0 p1 lines of
        None \<Rightarrow> None
      | Some lines' \<Rightarrow> AddEdgesToViewportLines bounds edges lines')"

text \<open>The loop invariant: each outcode is the outcode of its point.\<close>
definition clip_inv :: "Vector4d \<Rightarrow> clip_state \<Rightarrow> bool" where
  "clip_inv bounds s = (case s of (x0, y0, x1, y1, location0, location1) \<Rightarrow>
     location0 = LocationRelativeToViewPort bounds x0 y0 \<and>
     location1 = LocationRelativeToViewPort bounds x1 y1)"


subsection \<open>The bounding box record\<close>

datatype BoundingBoxType = BBT_FULLBOX2D | BBT_VISIBLEBOX2D | BBT_BOX3D

type_synonym Vector3d = "real \<times> real \<times> real"

text \<open>A quaternion \<open>(w, x, y, z)\<close>.\<close>
type_synonym Quaterniond = "real \<times> real \<times> real \<times> real"

record BoundingBox =
  box_type :: BoundingBoxType
  center :: Vector3d
  box_size :: Vector3d
  orientation :: Quaterniond
  label :: "32 word"

text \<open>
  Modelled from the spec: the value of a default-constructed \<open>BoundingBox\<close>. The header
  \<open>BoundingBox.hh\<close> is not among the sources; the data model of the spec gives a 2D box the
  identity orientation, and the vectors of a fresh box are zero. The type and the label
  are parameters: every function that creates a box assigns them.
\<close>
definition new_BoundingBox :: "BoundingBoxType \<Rightarrow> 32 word \<Rightarrow> BoundingBox" where
  "new_BoundingBox t l =
     \<lparr>box_type = t, center = (0, 0, 0), box_size = (0, 0, 0),
      orientation = (1, 0, 0, 0), label = l\<rparr>"

subsection \<open>IdentifierBufferScanner\<close>

text \<open>
  The identifier buffer is a byte array read through a raw pointer; a read outside it is
  undefined in C++ and \<open>None\<close> here.
\<close>
definition read_byte :: "8 word list \<Rightarrow> 32 word \<Rightarrow> 8 word option" where
  "read_byte buffer index =
     (if unat index < length buffer then Some (buffer ! unat index) else None)"

text \<open>The decoding rule: \<open>ogreId = ogreId1 * 256 + ogreId2\<close> on \<open>uint32_t\<close>.\<close>
definition decode_ogreId :: "8 word \<Rightarrow> 8 word \<Rightarrow> 32 word" where
  "decode_ogreId idHigh idLow =
     (let ogreId1 = (ucast idHigh :: 32 word); ogreId2 = (ucast idLow :: 32 word)
      in ogreId1 * 256 + ogreId2)"

text \<open>A \<open>for\<close> loop over a list of index values, the body failing or giving the next state.\<close>
primrec for_each :: "('i \<Rightarrow> 's \<Rightarrow> 's option) \<Rightarrow> 'i list \<Rightarrow> 's \<Rightarrow> 's option" where
  "for_each body [] s = Some s"
| "for_each body (i # is) s =
     (case body i s of None \<Rightarrow> None | Some s' \<Rightarrow> for_each body is s')"

text \<open>The values of \<open>i\<close> in \<open>for (uint32_t i = 0; i < n; i++)\<close>.\<close>
definition uint32_upto :: "32 word \<Rightarrow> 32 word list" where
  "uint32_upto n = map of_nat [0..<unat n]"

text \<open>The body of the pixel loop of \<open>MarkVisibleBoxes\<close>.\<close>
definition mark_pixel ::
    "8 word list \<Rightarrow> 32 word \<Rightarrow> 32 word \<Rightarrow> 32 word \<Rightarrow> 32 word \<Rightarrow>
     (32 word \<rightharpoonup> 32 word) \<Rightarrow> (32 word \<rightharpoonup> 32 word) option" where
  "mark_pixel buffer backgroundLabel width y x visibleBoxesLabel =
     (let index = (y * width + x) * 3 in
      case read_byte buffer (index + 2) of
        None \<Rightarrow> None
      | Some l \<Rightarrow>
          let label = (ucast l :: 32 word) in
          if label \<noteq> backgroundLabel then
            (case read_byte buffer (index + 1) of
               None \<Rightarrow> None
             | Some idHigh \<Rightarrow>
                 (case read_byte buffer (index + 0) of
                    None \<Rightarrow> None
                  | Some idLow \<Rightarrow>
                      let ogreId = decode_ogreId idHigh idLow in
                      if visibleBoxesLabel ogreId = None
                      then Some (visibleBoxesLabel(ogreId \<mapsto> label))
                      else Some visibleBoxesLabel))
          else Some visibleBoxesLabel)"

definition MarkVisibleBoxes ::
    "8 word list \<Rightarrow> 32 word \<Rightarrow> 32 word \<Rightarrow> 32 word \<Rightarrow>
     (32 word \<rightharpoonup> 32 word) \<Rightarrow> (32 word \<rightharpoonup> 32 word) option" where
  "MarkVisibleBoxes buffer backgroundLabel width height visibleBoxesLabel =
     for_each (\<lambda>y. for_each (\<lambda>x. mark_pixel buffer backgroundLabel width y x)
                             (uint32_upto width))
              (uint32_upto height) visibleBoxesLabel"

text \<open>The local struct \<open>BoxBoundary\<close>: \<open>minX, minY, maxX, maxY\<close>.\<close>
type_synonym BoxBoundary = "32 word \<times> 32 word \<times> 32 word \<times> 32 word"

text \<open>
  The state of the first loop of \<open>VisibleBoundingBoxes\<close>: the map \<open>boundingboxes\<close> of the
  camera and the local map \<open>boxesBoundary\<close>.
\<close>
type_synonym visible_state = "(32 word \<rightharpoonup> BoundingBox) \<times> (32 word \<rightharpoonup> BoxBoundary)"

text \<open>
  The body of the pixel loop of \<open>VisibleBoundingBoxes\<close>. The three bytes are read before
  the label is tested. A box that is already in \<open>boundingboxes\<close> takes its boundary from
  \<open>boxesBoundary\<close>; without an entry there the code dereferences a null pointer (\<open>None\<close>).
\<close>
definition visible_pixel ::
    "8 word list \<Rightarrow> 32 word \<Rightarrow> 32 word \<Rightarrow> 32 word \<Rightarrow> 32 word \<Rightarrow> 32 word \<Rightarrow>
     visible_state \<Rightarrow> visible_state option" where
  "visible_pixel buffer backgroundLabel width height y x st =
     (case st of (boundingboxes, boxesBoundary) \<Rightarrow>
      let index = (y * width + x) * 3 in
      case read_byte buffer (index + 2) of
        None \<Rightarrow> None
      | Some l \<Rightarrow>
      (case read_byte buffer (index + 1) of
        None \<Rightarrow> None
      | Some idHigh \<Rightarrow>
      (case read_byte buffer (index + 0) of
        None \<Rightarrow> None
      | Some idLow \<Rightarrow>
          let label = (ucast l :: 32 word) in
          if label \<noteq> backgroundLabel then
            let ogreId = decode_ogreId idHigh idLow;
                created = (boundingboxes ogreId = None);
                boundingboxes =
                  (if created
                   then boundingboxes(ogreId \<mapsto> new_BoundingBox BBT_VISIBLEBOX2D label)
                   else boundingboxes);
                boxesBoundary =
                  (if created
                   then boxesBoundary(ogreId \<mapsto> (width, height, 0, 0))
                   else boxesBoundary)
            in (case boxesBoundary ogreId of
                  None \<Rightarrow> None
                | Some (minX, minY, maxX, maxY) \<Rightarrow>
                    Some (boundingboxes,
                          boxesBoundary(ogreId \<mapsto> (min minX x, min minY y, max maxX x, max maxY y))))
          else Some st)))"

definition VisibleBoundingBoxes_scan ::
    "8 word list \<Rightarrow> 32 word \<Rightarrow> 32 word \<Rightarrow> 32 word \<Rightarrow> visible_state \<Rightarrow> visible_state option" where
  "VisibleBoundingBoxes_scan buffer backgroundLabel width height st =
     for_each (\<lambda>y. for_each (\<lambda>x. visible_pixel buffer backgroundLabel width height y x)
                             (uint32_upto width))
              (uint32_upto height) st"

text \<open>
  For the statements about the scan: the pixels in row-major order, the label and the
  identifier a pixel decodes to, and the first pixel that records an identifier.
\<close>
definition row_major :: "32 word \<Rightarrow> 32 word \<Rightarrow> (32 word \<times> 32 word) list" where
  "row_major width height =
     concat (map (\<lambda>y. map (\<lambda>x. (y, x)) (uint32_upto width)) (uint32_upto height))"

definition pixel_label :: "8 word list \<Rightarrow> 32 word \<Rightarrow> 32 word \<times> 32 word \<Rightarrow> 32 word" where
  "pixel_label buffer width p =
     (case p of (y, x) \<Rightarrow> ucast (buffer ! unat ((y * width + x) * 3 + 2)))"

definition pixel_ogreId :: "8 word list \<Rightarrow> 32 word \<Rightarrow> 32 word \<times> 32 word \<Rightarrow> 32 word" where
  "pixel_ogreId buffer width p =
     (case p of (y, x) \<Rightarrow>
        decode_ogreId (buffer ! unat ((y * width + x) * 3 + 1))
                      (buffer ! unat ((y * width + x) * 3 + 0)))"

definition first_label ::
    "8 word list \<Rightarrow> 32 word \<Rightarrow> 32 word \<Rightarrow> 32 word \<Rightarrow> 32 word \<Rightarrow> 32 word option" where
  "first_label buffer backgroundLabel width height ogreId =
     map_option (pixel_label buffer width)
       (find (\<lambda>p. pixel_label buffer width p \<noteq> backgroundLabel \<and>
                   pixel_ogreId buffer width p = ogreId)
             (row_major width height))"

subsection \<open>Conversions between floating and integer types\<close>

text \<open>
  A floating value converted to an integer type loses its fractional part (truncation
  towards zero). C++ leaves the conversion undefined when the truncated value is not a
  value of the destination type. For \<open>uint32_t\<close> the model follows the x86-64 build,
  which converts to a 64-bit integer and keeps its low 32 bits: the result is the
  truncated value modulo \<open>2^32\<close> as long as that value is a 64-bit integer, and beyond
  there is none (\<open>None\<close>). For \<open>int\<close> the model has a value only when \<open>int\<close> holds the
  truncated value.
\<close>
definition trunc_toward_zero :: "real \<Rightarrow> int" where
  "trunc_toward_zero v = (if 0 \<le> v then \<lfloor>v\<rfloor> else \<lceil>v\<rceil>)"

definition to_uint32 :: "real \<Rightarrow> 32 word option" where
  "to_uint32 v =
     (let t = trunc_toward_zero v
      in if - (2 ^ 63) \<le> t \<and> t < 2 ^ 63 then Some (word_of_int t) else None)"

definition to_int32 :: "real \<Rightarrow> int option" where
  "to_int32 v =
     (let t = trunc_toward_zero v
      in if - (2 ^ 31) \<le> t \<and> t < 2 ^ 31 then Some t else None)"

text \<open>A \<open>uint32_t\<close> stored in a floating variable.\<close>
definition of_uint32 :: "32 word \<Rightarrow> real" where
  "of_uint32 w = real (unat w)"

definition UINT32_MAX :: "32 word" where
  "UINT32_MAX = 4294967295"

subsection \<open>MultiPartMerger: the 2D merge\<close>

text \<open>
  The four locals \<open>boxMinX, boxMaxX, boxMinY, boxMaxY\<close> of the loop body of \<open>MergeBoxes2D\<close>.
\<close>
definition box_corners :: "BoundingBox \<Rightarrow> (32 word \<times> 32 word \<times> 32 word \<times> 32 word) option" where
  "box_corners box =
     (case center box of (cx, cy, cz) \<Rightarrow>
     (case box_size box of (sx, sy, sz) \<Rightarrow>
     (case to_uint32 (cx - sx / 2) of None \<Rightarrow> None | Some boxMinX \<Rightarrow>
     (case to_uint32 (cx + sx / 2) of None \<Rightarrow> None | Some boxMaxX \<Rightarrow>
     (case to_uint32 (cy - sy / 2) of None \<Rightarrow> None | Some boxMinY \<Rightarrow>
     (case to_uint32 (cy + sy / 2) of None \<Rightarrow> None | Some boxMaxY \<Rightarrow>
        Some (boxMinX, boxMaxX, boxMinY, boxMaxY)))))))"

text \<open>The loop over the boxes, on the accumulators \<open>minX, maxX, minY, maxY\<close>.\<close>
fun merge_extents ::
    "BoundingBox list \<Rightarrow> 32 word \<times> 32 word \<times> 32 word \<times> 32 word \<Rightarrow>
     (32 word \<times> 32 word \<times> 32 word \<times> 32 word) option" where
  "merge_extents [] acc = Some acc"
| "merge_extents (box # boxes) (minX, maxX, minY, maxY) =
     (case box_corners box of
        None \<Rightarrow> None
      | Some (boxMinX, boxMaxX, boxMinY, boxMaxY) \<Rightarrow>
          merge_extents boxes
            (min minX boxMinX, max maxX boxMaxX, min minY boxMinY, max maxY boxMaxY))"

text \<open>
  \<open>MergeBoxes2D\<close>; \<open>camera_type\<close> is the box type of the camera. On an empty group the code
  reads \<open>_boxes[0]\<close> of an empty vector (\<open>None\<close>).
\<close>
definition MergeBoxes2D :: "BoundingBoxType \<Rightarrow> BoundingBox list \<Rightarrow> BoundingBox option" where
  "MergeBoxes2D camera_type boxes =
     (if length boxes = 1 then Some (boxes ! 0)
      else
        (case merge_extents boxes (UINT32_MAX, 0, UINT32_MAX, 0) of
           None \<Rightarrow> None
         | Some (minX, maxX, minY, maxY) \<Rightarrow>
             let width = maxX - minX;
                 height = maxY - minY
             in (case boxes of
                   [] \<Rightarrow> None
                 | first_box # rest \<Rightarrow>
                     Some ((new_BoundingBox camera_type (label first_box))
                       \<lparr>box_size := (of_uint32 width, of_uint32 height, 0),
                        center := (of_uint32 (minX + width div 2),
                                   of_uint32 (minY + height div 2), 0)\<rparr>))))"

text \<open>
  For the statements about the merge: the corners of a box as real numbers and as the
  integers the conversion keeps, the boxes whose corners \<open>uint32_t\<close> can hold, and the box
  that spans given integer extents.
\<close>
definition real_corners :: "BoundingBox \<Rightarrow> real \<times> real \<times> real \<times> real" where
  "real_corners box =
     (case center box of (cx, cy, cz) \<Rightarrow>
     (case box_size box of (sx, sy, sz) \<Rightarrow>
        (cx - sx / 2, cx + sx / 2, cy - sy / 2, cy + sy / 2)))"

definition corner_minX :: "BoundingBox \<Rightarrow> int" where
  "corner_minX box = trunc_toward_zero (fst (real_corners box))"
definition corner_maxX :: "BoundingBox \<Rightarrow> int" where
  "corner_maxX box = trunc_toward_zero (fst (snd (real_corners box)))"
definition corner_minY :: "BoundingBox \<Rightarrow> int" where
  "corner_minY box = trunc_toward_zero (fst (snd (snd (real_corners box))))"
definition corner_maxY :: "BoundingBox \<Rightarrow> int" where
  "corner_maxY box = trunc_toward_zero (snd (snd (snd (real_corners box))))"

definition representable :: "int \<Rightarrow> bool" where
  "representable t \<longleftrightarrow> 0 \<le> t \<and> t < 2 ^ 32"

definition corners_representable :: "BoundingBox \<Rightarrow> bool" where
  "corners_representable box \<longleftrightarrow>
     representable (corner_minX box) \<and> representable (corner_maxX box) \<and>
     representable (corner_minY box) \<and> representable (corner_maxY box)"

definition size_nonneg :: "BoundingBox \<Rightarrow> bool" where
  "size_nonneg box \<longleftrightarrow> 0 \<le> fst (box_size box) \<and> 0 \<le> fst (snd (box_size box))"

definition spanning_box ::
    "BoundingBoxType \<Rightarrow> 32 word \<Rightarrow> int \<Rightarrow> int \<Rightarrow> int \<Rightarrow> int \<Rightarrow> BoundingBox" where
  "spanning_box t l mnx mxx mny mxy =
     \<lparr>box_type = t,
      center = (real_of_int (mnx + (mxx - mnx) div 2), real_of_int (mny + (mxy - mny) div 2), 0),
      box_size = (real_of_int (mxx - mnx), real_of_int (mxy - mny), 0),
      orientation = (1, 0, 0, 0),
      label = l\<rparr>"

text \<open>
  The boxes whose corners the conversion has a value for, and the values of the locals
  \<open>boxMinX, boxMaxX, boxMinY, boxMaxY\<close> for such a box.
\<close>
definition convertible :: "real \<Rightarrow> bool" where
  "convertible v \<longleftrightarrow> - (2 ^ 63) \<le> trunc_toward_zero v \<and> trunc_toward_zero v < 2 ^ 63"

definition corners_convertible :: "BoundingBox \<Rightarrow> bool" where
  "corners_convertible box \<longleftrightarrow>
     convertible (fst (real_corners box)) \<and> convertible (fst (snd (real_corners box))) \<and>
     convertible (fst (snd (snd (real_corners box)))) \<and>
     convertible (snd (snd (snd (real_corners box))))"

definition boxMinX :: "BoundingBox \<Rightarrow> 32 word" where
  "boxMinX box = word_of_int (corner_minX box)"
definition boxMaxX :: "BoundingBox \<Rightarrow> 32 word" where
  "boxMaxX box = word_of_int (corner_maxX box)"
definition boxMinY :: "BoundingBox \<Rightarrow> 32 word" where
  "boxMinY box = word_of_int (corner_minY box)"
definition boxMaxY :: "BoundingBox \<Rightarrow> 32 word" where
  "boxMaxY box = word_of_int (corner_maxY box)"

definition whole_corners :: "BoundingBox \<Rightarrow> bool" where
  "whole_corners box \<longleftrightarrow>
     fst (real_corners box) \<in> \<int> \<and> fst (snd (real_corners box)) \<in> \<int> \<and>
     fst (snd (snd (real_corners box))) \<in> \<int> \<and> snd (snd (snd (real_corners box))) \<in> \<int>"

text \<open>A 2D box with the given center and size in the image plane.\<close>
definition box2d :: "real \<Rightarrow> real \<Rightarrow> real \<Rightarrow> real \<Rightarrow> 32 word \<Rightarrow> BoundingBox" where
  "box2d cx cy sx sy l =
     (new_BoundingBox BBT_VISIBLEBOX2D l)\<lparr>center := (cx, cy, 0), box_size := (sx, sy, 0)\<rparr>"

subsection \<open>Rasterizer: Bresenham lines\<close>

type_synonym Vector2i = "int \<times> int"

text \<open>
  The image is written through a raw \<open>unsigned char\<close> pointer; a write outside it is
  undefined in C++ and \<open>None\<close> here.
\<close>
definition write_byte :: "8 word list \<Rightarrow> 32 word \<Rightarrow> 8 word \<Rightarrow> 8 word list option" where
  "write_byte data index v =
     (if unat index < length data then Some (data[unat index := v]) else None)"

text \<open>
  ``Plot the point'': the index is computed in \<open>unsigned int\<close>, since \<open>ImageWidth()\<close> is
  unsigned, and the three channels are written in turn.
\<close>
definition plot :: "8 word list \<Rightarrow> 32 word \<Rightarrow> int \<Rightarrow> int \<Rightarrow> 8 word list option" where
  "plot data ImageWidth x y =
     (let index = (word_of_int y * ImageWidth + word_of_int x) * 3 in
      case write_byte data index 0 of
        None \<Rightarrow> None
      | Some data \<Rightarrow>
          (case write_byte data (index + 1) 255 of
             None \<Rightarrow> None
           | Some data \<Rightarrow> write_byte data (index + 2) 0))"

text \<open>The loop \<open>for (int x = x0; x < x1; x++)\<close> of the branch that iterates over \<open>x\<close>.\<close>
function draw_low ::
    "8 word list \<Rightarrow> 32 word \<Rightarrow> int \<Rightarrow> int \<Rightarrow> int \<Rightarrow> int \<Rightarrow> int \<Rightarrow> int \<Rightarrow> int \<Rightarrow>
     8 word list option" where
  "draw_low data ImageWidth dx dy yi x1 x y D =
     (if x < x1 then
        (case plot data ImageWidth x y of
           None \<Rightarrow> None
         | Some data' \<Rightarrow>
             if D > 0
             then draw_low data' ImageWidth dx dy yi x1 (x + 1) (y + yi) (D + 2 * (dy - dx))
             else draw_low data' ImageWidth dx dy yi x1 (x + 1) y (D + 2 * dy))
      else Some data)"
  by pat_completeness auto
termination
  by (relation "measure (\<lambda>(data, ImageWidth, dx, dy, yi, x1, x, y, D). nat (x1 - x))") auto

text \<open>The loop \<open>for (int y = y0; y < y1; y++)\<close> of the branch that iterates over \<open>y\<close>.\<close>
function draw_high ::
    "8 word list \<Rightarrow> 32 word \<Rightarrow> int \<Rightarrow> int \<Rightarrow> int \<Rightarrow> int \<Rightarrow> int \<Rightarrow> int \<Rightarrow> int \<Rightarrow>
     8 word list option" where
  "draw_high data ImageWidth dx dy xi y1 y x D =
     (if y < y1 then
        (case plot data ImageWidth x y of
           None \<Rightarrow> None
         | Some data' \<Rightarrow>
             if D > 0
             then draw_high data' ImageWidth dx dy xi y1 (y + 1) (x + xi) (D + 2 * (dx - dy))
             else draw_high data' ImageWidth dx dy xi y1 (y + 1) x (D + 2 * dx))
      else Some data)"
  by pat_completeness auto
termination
  by (relation "measure (\<lambda>(data, ImageWidth, dx, dy, xi, y1, y, x, D). nat (y1 - y))") auto

definition DrawLine :: "8 word list \<Rightarrow> 32 word \<Rightarrow> Vector2i \<Rightarrow> Vector2i \<Rightarrow> 8 word list option" where
  "DrawLine data ImageWidth point1 point2 =
     (if \<bar>snd point2 - snd point1\<bar> < \<bar>fst point2 - fst point1\<bar> then
        (case (if fst point1 < fst point2
               then (fst point1, snd point1, fst point2, snd point2)
               else (fst point2, snd point2, fst point1, snd point1)) of
           (x0, y0, x1, y1) \<Rightarrow>
             let dx = x1 - x0;
                 dy = y1 - y0;
                 yi = (if dy < 0 then - 1 else 1);
                 dy = (if dy < 0 then - dy else dy);
                 D = 2 * dy - dx;
                 y = y0
             in draw_low data ImageWidth dx dy yi x1 x0 y D)
      else
        (case (if snd point1 < snd point2
               then (fst point1, snd point1, fst point2, snd point2)
               else (fst point2, snd point2, fst point1, snd point1)) of
           (x0, y0, x1, y1) \<Rightarrow>
             let dx = x1 - x0;
                 dy = y1 - y0;
                 xi = (if dx < 0 then - 1 else 1);
                 dx = (if dx < 0 then - dx else dx);
                 D = 2 * dx - dy;
                 x = x0
             in draw_high data ImageWidth dx dy xi y1 y0 x D))"

text \<open>
  The conversion of a clipped vertex to screen coordinates in \<open>DrawBoundingBox\<close>: each
  statement stores a \<open>uint32_t\<close> back into the double coordinate, and the last one builds
  the \<open>Vector2i\<close>.
\<close>
definition ToScreen :: "32 word \<Rightarrow> 32 word \<Rightarrow> Vector2d \<Rightarrow> Vector2i option" where
  "ToScreen width height vertex =
     (case vertex of (vx, vy) \<Rightarrow>
        Option.bind (to_uint32 ((vx + 1) / 2 * of_uint32 width)) (\<lambda>u.
        let vx = of_uint32 u in
        Option.bind (to_uint32 ((1 - vy) / 2 * of_uint32 height)) (\<lambda>u.
        let vy = of_uint32 u in
        Option.bind (to_uint32 vx) (\<lambda>u.
        let vx = of_uint32 (max 0 u) in
        Option.bind (to_uint32 vy) (\<lambda>u.
        let vy = of_uint32 (max 0 u) in
        Option.bind (to_uint32 vx) (\<lambda>u.
        let vx = of_uint32 (min u (width - 1)) in
        Option.bind (to_uint32 vy) (\<lambda>u.
        let vy = of_uint32 (min u (height - 1)) in
        Option.bind (to_int32 vx) (\<lambda>px.
        Option.bind (to_int32 vy) (\<lambda>py. Some (px, py))))))))))"

text \<open>The outline colour, by channel of the byte index: green.\<close>
definition outline_colour :: "nat \<Rightarrow> 8 word" where
  "outline_colour i = (if i mod 3 = 1 then 255 else 0)"

subsection \<open>FullProjectionBuilder: from clip space to a 2D box\<close>

text \<open>\<open>std::clamp<double>(v, lo, hi)\<close>.\<close>
definition clamp :: "real \<Rightarrow> real \<Rightarrow> real \<Rightarrow> real" where
  "clamp v lo hi = (if v < lo then lo else if hi < v then hi else v)"

text \<open>
  \<open>ConvertToScreenCoord\<close>, on the two vertices it updates in place. The \<open>z\<close> components
  are left as they are.
\<close>
definition ConvertToScreenCoord ::
    "32 word \<Rightarrow> 32 word \<Rightarrow> Vector3d \<Rightarrow> Vector3d \<Rightarrow> (Vector3d \<times> Vector3d) option" where
  "ConvertToScreenCoord width height minVertex maxVertex =
     (case minVertex of (min_x, min_y, min_z) \<Rightarrow>
     (case maxVertex of (max_x, max_y, max_z) \<Rightarrow>
        let min_x = clamp min_x (- 1) 1;
            min_y = clamp min_y (- 1) 1;
            max_x = clamp max_x (- 1) 1;
            max_y = clamp max_y (- 1) 1
        in
        Option.bind (to_uint32 ((min_x + 1) / 2 * of_uint32 width)) (\<lambda>u.
        let min_x = of_uint32 u in
        Option.bind (to_uint32 ((1 - min_y) / 2 * of_uint32 height)) (\<lambda>u.
        let min_y = of_uint32 u in
        Option.bind (to_uint32 ((max_x + 1) / 2 * of_uint32 width)) (\<lambda>u.
        let max_x = of_uint32 u in
        Option.bind (to_uint32 ((1 - max_y) / 2 * of_uint32 height)) (\<lambda>u.
        let max_y = of_uint32 u in
        Option.bind (to_uint32 min_x) (\<lambda>u.
        let min_x = of_uint32 (max 0 u) in
        Option.bind (to_uint32 min_y) (\<lambda>u.
        let min_y = of_uint32 (max 0 u) in
        Option.bind (to_uint32 max_x) (\<lambda>u.
        let max_x = of_uint32 (min u (width - 1)) in
        Option.bind (to_uint32 max_y) (\<lambda>u.
        let max_y = of_uint32 (min u (height - 1)) in
        Some ((min_x, min_y, min_z), (max_x, max_y, max_z))))))))))))"

text \<open>
  The test of \<open>FullBoundingBoxes\<close> on the extrema that \<open>MeshMinimalBox\<close> returns: when it
  holds, the loop moves on to the next item.
\<close>
definition discard_test :: "Vector3d \<Rightarrow> Vector3d \<Rightarrow> bool" where
  "discard_test minVertex maxVertex =
     (case minVertex of (min_x, min_y, min_z) \<Rightarrow>
     (case maxVertex of (max_x, max_y, max_z) \<Rightarrow>
        (\<bar>min_x\<bar> > 1 \<and> \<bar>max_x\<bar> > 1) \<or> (\<bar>min_y\<bar> > 1 \<and> \<bar>max_y\<bar> > 1)))"

text \<open>What one pass of the item loop of \<open>FullBoundingBoxes\<close> does with the extrema.\<close>
datatype full_item = Discarded | Boxed BoundingBox

text \<open>
  The rest of the loop body after \<open>MeshMinimalBox\<close>. The label is the one the loop that
  follows assigns from \<open>visibleBoxesLabel\<close>.
\<close>
definition FullBoundingBoxes_item ::
    "32 word \<Rightarrow> 32 word \<Rightarrow> 32 word \<Rightarrow> Vector3d \<Rightarrow> Vector3d \<Rightarrow> full_item option" where
  "FullBoundingBoxes_item width height box_label minVertex maxVertex =
     (if discard_test minVertex maxVertex then Some Discarded
      else
        (case ConvertToScreenCoord width height minVertex maxVertex of
           None \<Rightarrow> None
         | Some ((min_x, min_y, min_z), (max_x, max_y, max_z)) \<Rightarrow>
             let boxWidth = max_x - min_x;
                 boxHeight = min_y - max_y
             in Some (Boxed ((new_BoundingBox BBT_FULLBOX2D box_label)
                       \<lparr>center := (min_x + boxWidth / 2, max_y + boxHeight / 2, 0),
                        box_size := (boxWidth, boxHeight, 0)\<rparr>))))"

text \<open>
  For the statements: an object is fully off-screen when the rectangle of its projected
  extrema does not meet the clip square \<open>[-1,1] \<times> [-1,1]\<close>; and the pixel a clip coordinate
  converts to.
\<close>
definition fully_offscreen :: "Vector3d \<Rightarrow> Vector3d \<Rightarrow> bool" where
  "fully_offscreen minVertex maxVertex =
     (case minVertex of (min_x, min_y, min_z) \<Rightarrow>
     (case maxVertex of (max_x, max_y, max_z) \<Rightarrow>
        max_x < - 1 \<or> 1 < min_x \<or> max_y < - 1 \<or> 1 < min_y))"

definition pixel_x :: "32 word \<Rightarrow> real \<Rightarrow> int" where
  "pixel_x width x = \<lfloor>(clamp x (- 1) 1 + 1) / 2 * real (unat width)\<rfloor>"

definition pixel_y :: "32 word \<Rightarrow> real \<Rightarrow> int" where
  "pixel_y height y = \<lfloor>(1 - clamp y (- 1) 1) / 2 * real (unat height)\<rfloor>"

section \<open>Properties\<close>

subsection \<open>Rounding to a double\<close>

text \<open>
  A certificate for one rounding: when \<open>x\<close> scaled by \<open>2^m\<close> lies in \<open>[2^52, 2^53)\<close>, the
  double nearest to \<open>x\<close> is \<open>n / 2^m\<close> for the integer \<open>n\<close> nearest to the scaled value (the
  even one of two).
\<close>
lemma bitlen_eqI:
  assumes "2 ^ j \<le> a" "a < 2 ^ Suc j"
  shows "bitlen a = int j + 1"
proof -
  have pos: "0 < a" using assms(1) by (smt (verit) zero_less_power)
  from bitlen_bounds[OF pos] have b: "2 ^ nat (bitlen a - 1) \<le> a" "a < 2 ^ nat (bitlen a)" by simp_all
  have "(2::int) ^ nat (bitlen a - 1) < 2 ^ Suc j" using b(1) assms(2) by linarith
  then have 1: "nat (bitlen a - 1) < Suc j"
    using power_less_imp_less_exp[of "2::int" "nat (bitlen a - 1)" "Suc j"] by simp
  have "(2::int) ^ j < 2 ^ nat (bitlen a)" using b(2) assms(1) by linarith
  then have 2: "j < nat (bitlen a)"
    using power_less_imp_less_exp[of "2::int" j "nat (bitlen a)"] by simp
  from 1 2 show ?thesis by linarith
qed

lemma round_to_even_bounds:
  "\<bar>x - real_of_int (round_to_even x)\<bar> \<le> 1 / 2"
  unfolding round_to_even_def Let_def by (auto; linarith)


lemma round_to_even_eqI:
  assumes "\<bar>y - real_of_int n\<bar> < 1 / 2 \<or> \<bar>y - real_of_int n\<bar> = 1 / 2 \<and> even n"
  shows "round_to_even y = n"
proof -
  consider (lo) "y < real_of_int n" | (hi) "real_of_int n \<le> y" by linarith
  then show ?thesis
  proof cases
    case lo
    then have f: "\<lfloor>y\<rfloor> = n - 1" using assms by (intro floor_unique) auto
    show ?thesis using assms lo unfolding round_to_even_def Let_def f by auto
  next
    case hi
    then have f: "\<lfloor>y\<rfloor> = n" using assms by (intro floor_unique) auto
    show ?thesis using assms hi unfolding round_to_even_def Let_def f by auto
  qed
qed

lemma round_scaled:
  fixes N m :: nat
  assumes lo: "2 ^ 52 \<le> \<bar>x\<bar> * 2 ^ m" and hi: "\<bar>x\<bar> * 2 ^ m < 2 ^ 53" and m: "m \<le> N"
    and n: "\<bar>x * 2 ^ m - real_of_int n\<bar> < 1 / 2 \<or> \<bar>x * 2 ^ m - real_of_int n\<bar> = 1 / 2 \<and> even n"
  shows "real_of_int (round_to_even (x * 2 ^ N / 2 ^ nat (bitlen \<lfloor>\<bar>x\<bar> * 2 ^ N\<rfloor> - 53))) *
           2 ^ nat (bitlen \<lfloor>\<bar>x\<bar> * 2 ^ N\<rfloor> - 53) / 2 ^ N = real_of_int n / 2 ^ m"
    and "\<bar>real_of_int n / 2 ^ m\<bar> < 2 ^ 54"
proof -
  let ?j = "52 + (N - m)"
  have p: "(2::real) ^ N = 2 ^ m * 2 ^ (N - m)" using m by (simp add: power_add[symmetric])
  have sc: "\<bar>x\<bar> * 2 ^ N = (\<bar>x\<bar> * 2 ^ m) * 2 ^ (N - m)" unfolding p by simp
  have "(2::real) ^ ?j = 2 ^ 52 * 2 ^ (N - m)" by (simp only: power_add)
  also have "\<dots> \<le> \<bar>x\<bar> * 2 ^ N" unfolding sc using lo by (intro mult_right_mono) simp_all
  finally have l: "real_of_int (2 ^ ?j) \<le> \<bar>x\<bar> * 2 ^ N" by simp
  have h0: "\<bar>x\<bar> * 2 ^ N < 2 ^ 53 * 2 ^ (N - m)"
    unfolding sc using hi by (intro mult_strict_right_mono) simp_all
  have h: "\<bar>x\<bar> * 2 ^ N < real_of_int (2 ^ Suc ?j)" using h0 by (simp add: power_add)
  have "bitlen \<lfloor>\<bar>x\<bar> * 2 ^ N\<rfloor> = int ?j + 1"
    by (rule bitlen_eqI) (use l h in \<open>simp_all only: le_floor_iff floor_less_iff\<close>)
  then have k: "nat (bitlen \<lfloor>\<bar>x\<bar> * 2 ^ N\<rfloor> - 53) = N - m" by simp
  have q: "x * 2 ^ N / 2 ^ (N - m) = x * 2 ^ m" unfolding p by simp
  have r: "round_to_even (x * 2 ^ m) = n" using n by (rule round_to_even_eqI)
  have d: "real_of_int n * 2 ^ (N - m) / 2 ^ N = real_of_int n / 2 ^ m" unfolding p by simp
  show "real_of_int (round_to_even (x * 2 ^ N / 2 ^ nat (bitlen \<lfloor>\<bar>x\<bar> * 2 ^ N\<rfloor> - 53))) *
           2 ^ nat (bitlen \<lfloor>\<bar>x\<bar> * 2 ^ N\<rfloor> - 53) / 2 ^ N = real_of_int n / 2 ^ m"
    unfolding k q r d ..
  have "\<bar>real_of_int n\<bar> \<le> \<bar>x * 2 ^ m\<bar> + 1 / 2" using n by linarith
  also have "\<bar>x * 2 ^ m\<bar> = \<bar>x\<bar> * 2 ^ m" by (simp add: abs_mult)
  finally have "\<bar>real_of_int n\<bar> < 2 ^ 54" using hi by simp
  then have "\<bar>real_of_int n\<bar> / 2 ^ m < 2 ^ 54 / 2 ^ m" by (simp add: divide_strict_right_mono)
  also have "\<dots> \<le> 2 ^ 54 / 1" by (intro divide_left_mono) simp_all
  finally show "\<bar>real_of_int n / 2 ^ m\<bar> < 2 ^ 54" by simp
qed

lemma round_doubleI:
  assumes "2 ^ 52 \<le> \<bar>x\<bar> * 2 ^ m" and "\<bar>x\<bar> * 2 ^ m < 2 ^ 53" and "m \<le> 1074"
    and "\<bar>x * 2 ^ m - real_of_int n\<bar> < 1 / 2 \<or> \<bar>x * 2 ^ m - real_of_int n\<bar> = 1 / 2 \<and> even n"
  shows "round_double x = Some (real_of_int n / 2 ^ m)"
proof -
  have "\<bar>real_of_int n / 2 ^ m\<bar> < 2 ^ 54" by (rule round_scaled(2)[OF assms])
  also have "(2::real) ^ 54 < 2 ^ 1024" by (rule power_strict_increasing) simp_all
  finally show ?thesis
    unfolding round_double_def Let_def round_scaled(1)[OF assms] by simp
qed

lemma round_double_0: "round_double 0 = Some 0"
  by (simp add: round_double_def round_to_even_def)


text \<open>
  Every double is a multiple of the smallest subnormal, and rounding such a multiple gives
  zero only when it is zero.
\<close>
lemma round_double_SomeD:
  "round_double x = Some d \<Longrightarrow>
     d = real_of_int (round_to_even (x * 2 ^ 1074 / 2 ^ nat (bitlen \<lfloor>\<bar>x\<bar> * 2 ^ 1074\<rfloor> - 53))) *
           2 ^ nat (bitlen \<lfloor>\<bar>x\<bar> * 2 ^ 1074\<rfloor> - 53) / 2 ^ 1074"
  unfolding round_double_def Let_def by (metis option.distinct(1) option.inject)

lemma round_double_grid: "round_double x = Some d \<Longrightarrow> d \<in> double_grid"
proof -
  assume "round_double x = Some d"
  from round_double_SomeD[OF this] obtain r k where "d = real_of_int r * 2 ^ k / 2 ^ 1074" by blast
  then have "d = real_of_int (r * 2 ^ k) / 2 ^ 1074" by simp
  then show ?thesis unfolding double_grid_def by blast
qed

lemma is_double_grid: "is_double x \<Longrightarrow> x \<in> double_grid"
  unfolding is_double_def by (rule round_double_grid)

lemma grid_diff: "a \<in> double_grid \<Longrightarrow> b \<in> double_grid \<Longrightarrow> a - b \<in> double_grid"
proof -
  assume "a \<in> double_grid" "b \<in> double_grid"
  then obtain i j :: int where "a = real_of_int i / 2 ^ 1074" "b = real_of_int j / 2 ^ 1074"
    unfolding double_grid_def by blast
  then have "a - b = real_of_int (i - j) / 2 ^ 1074" by (simp add: diff_divide_distrib)
  then show ?thesis unfolding double_grid_def by blast
qed

lemma round_to_even_nonzero: "1 \<le> \<bar>y\<bar> \<Longrightarrow> round_to_even y \<noteq> 0"
  using round_to_even_bounds[of y] by auto

lemma round_grid_nonzero:
  fixes N :: nat and i :: int
  assumes "i \<noteq> 0"
  shows "round_to_even (real_of_int i / 2 ^ N * 2 ^ N /
           2 ^ nat (bitlen \<lfloor>\<bar>real_of_int i / 2 ^ N\<bar> * 2 ^ N\<rfloor> - 53)) \<noteq> 0"
proof -
  have a: "\<bar>real_of_int i / 2 ^ N\<bar> * 2 ^ N = real_of_int \<bar>i\<bar>" by (simp add: abs_divide)
  have f: "\<lfloor>\<bar>real_of_int i / 2 ^ N\<bar> * 2 ^ N\<rfloor> = \<bar>i\<bar>" unfolding a by (rule floor_of_int)
  have x: "real_of_int i / 2 ^ N * 2 ^ N = real_of_int i" by simp
  have pos: "0 < \<bar>i\<bar>" using assms by simp
  let ?L = "bitlen \<bar>i\<bar>"
  from bitlen_bounds[OF pos] have b: "2 ^ nat (?L - 1) \<le> \<bar>i\<bar>" by simp
  have "nat (?L - 53) \<le> nat (?L - 1)" by simp
  then have "(2::int) ^ nat (?L - 53) \<le> 2 ^ nat (?L - 1)" by (rule power_increasing) simp
  then have "(2::int) ^ nat (?L - 53) \<le> \<bar>i\<bar>" using b by linarith
  then have "real_of_int (2 ^ nat (?L - 53)) \<le> real_of_int \<bar>i\<bar>" by (rule of_int_le_iff[THEN iffD2])
  then have "1 \<le> \<bar>real_of_int i / 2 ^ nat (?L - 53)\<bar>"
    by (simp add: abs_divide le_divide_eq)
  then show ?thesis unfolding f x by (rule round_to_even_nonzero)
qed

lemma round_double_zero:
  assumes "x \<in> double_grid" "round_double x = Some 0"
  shows "x = 0"
proof (rule ccontr)
  assume nz: "x \<noteq> 0"
  from assms(1) obtain i :: int where x: "x = real_of_int i / 2 ^ 1074"
    unfolding double_grid_def by blast
  then have "i \<noteq> 0" using nz by auto
  from round_grid_nonzero[OF this, of 1074] round_double_SomeD[OF assms(2)]
  show False unfolding x by simp
qed

subsection \<open>The clipper\<close>

lemmas k_defs = kInside_def kLeft_def kRight_def kBottom_def kTop_def

text \<open>
  The loop may run forever, so its properties are proved of the results it has: an
  invariant of the body holds of the state in which the loop is left. A state that the body
  brings back to itself in two passes is never left.
\<close>
lemma clip_loop_rule:
  assumes c: "clip_loop b s = Some r" and i: "I s"
    and step: "\<And>u u'. I u \<Longrightarrow> clip_body b u = Inr u' \<Longrightarrow> I u'"
  shows "\<exists>u. I u \<and> clip_body b u = Inl r"
proof -
  have "b' = b \<longrightarrow> I u \<longrightarrow> (\<exists>v. I v \<and> clip_body b v = Inl y)"
    if l: "clip_loop b' u = Some y" for b' u y
  proof (rule clip_loop.raw_induct[OF _ l])
    fix f b' u y
    assume IH: "\<And>b' u y. f b' u = Some y \<Longrightarrow> b' = b \<longrightarrow> I u \<longrightarrow> (\<exists>v. I v \<and> clip_body b v = Inl y)"
      and eq: "(case clip_body b' u of Inl r \<Rightarrow> Some r | Inr s' \<Rightarrow> f b' s') = Some y"
    show "b' = b \<longrightarrow> I u \<longrightarrow> (\<exists>v. I v \<and> clip_body b v = Inl y)"
    proof (intro impI)
      assume b: "b' = b" and u: "I u"
      show "\<exists>v. I v \<and> clip_body b v = Inl y"
      proof (cases "clip_body b u")
        case (Inl r')
        then have "clip_body b u = Inl y" using eq b by simp
        then show ?thesis using u by blast
      next
        case (Inr u')
        then have "f b u' = Some y" using eq b by simp
        moreover have "I u'" using step[OF u Inr] .
        ultimately show ?thesis using IH by blast
      qed
    qed
  qed
  then show ?thesis using c i by blast
qed



lemma Location_eq:
  "LocationRelativeToViewPort (xmin, ymin, xmax, ymax) x y =
     (if x < xmin then 1 else if x > xmax then 2 else 0) +
     (if y < ymin then 4 else if y > ymax then 8 else 0)"
  by (simp add: LocationRelativeToViewPort_def k_defs Let_def)

lemma Location_zero:
  "LocationRelativeToViewPort (xmin, ymin, xmax, ymax) x y = 0 \<longleftrightarrow>
     xmin \<le> x \<and> x \<le> xmax \<and> ymin \<le> y \<and> y \<le> ymax"
  by (auto simp add: Location_eq)

lemma Location_nonneg: "0 \<le> LocationRelativeToViewPort b x y"
  by (cases b) (simp add: Location_eq)

lemma Location_nonzero:
  "LocationRelativeToViewPort b x y \<noteq> 0 \<Longrightarrow>
     LocationRelativeToViewPort b x y AND kTop \<noteq> 0 \<or> LocationRelativeToViewPort b x y AND kBottom \<noteq> 0 \<or>
     LocationRelativeToViewPort b x y AND kRight \<noteq> 0 \<or> LocationRelativeToViewPort b x y AND kLeft \<noteq> 0"
  by (cases b) (simp add: Location_eq k_defs split: if_splits)

lemma in_bounds_Location:
  "in_bounds b (x, y) \<longleftrightarrow> LocationRelativeToViewPort b x y = 0"
  by (cases b) (auto simp add: Location_zero)

lemma intersect_at_Inl:
  "intersect_at a0 a1 b0 b1 bm = Inl brk \<Longrightarrow> brk = Overflow \<or> brk = ZeroDivisor"
  by (auto simp add: intersect_at_def split: option.splits if_splits)

lemma clip_intersection_Inl:
  "clip_intersection b s k = Inl brk \<Longrightarrow> brk = Overflow \<or> brk = ZeroDivisor \<or> brk = InternalError"
  by (auto simp add: clip_intersection_def split: prod.splits if_splits sum.splits
      dest: intersect_at_Inl)

lemma clip_intersection_InternalError:
  "clip_intersection b s k = Inl InternalError \<Longrightarrow>
     k AND kTop = 0 \<and> k AND kBottom = 0 \<and> k AND kRight = 0 \<and> k AND kLeft = 0"
  by (auto simp add: clip_intersection_def split: prod.splits if_splits sum.splits
      dest: intersect_at_Inl)

lemma clip_intersection_side:
  assumes "clip_intersection b s k = Inr c"
  shows "(k AND kTop \<noteq> 0 \<and> on_boundary b kTop c) \<or>
         (k AND kTop = 0 \<and> k AND kBottom \<noteq> 0 \<and> on_boundary b kBottom c) \<or>
         (k AND kTop = 0 \<and> k AND kBottom = 0 \<and> k AND kRight \<noteq> 0 \<and> on_boundary b kRight c) \<or>
         (k AND kTop = 0 \<and> k AND kBottom = 0 \<and> k AND kRight = 0 \<and> k AND kLeft \<noteq> 0 \<and>
            on_boundary b kLeft c)"
proof -
  obtain xmin ymin xmax ymax where b: "b = (xmin, ymin, xmax, ymax)" by (cases b)
  obtain x0 y0 x1 y1 l0 l1 where s: "s = (x0, y0, x1, y1, l0, l1)" by (cases s)
  have o: "on_boundary b kTop (x, ymax)" "on_boundary b kBottom (x, ymin)"
    "on_boundary b kRight (xmax, y)" "on_boundary b kLeft (xmin, y)" for x y
    by (simp_all add: on_boundary_def b k_defs)
  show ?thesis
    using assms unfolding clip_intersection_def b s prod.case
    by (simp split: if_splits sum.splits) (use o in \<open>auto simp add: b\<close>)
qed

lemma clip_body_eq:
  "clip_body b (x0, y0, x1, y1, l0, l1) =
     (if l0 OR l1 = 0 then Inl (BothInside, (x0, y0, x1, y1, l0, l1))
      else if l0 AND l1 \<noteq> 0 then Inl (SharedZone, (x0, y0, x1, y1, l0, l1))
      else
        (case clip_intersection b (x0, y0, x1, y1, l0, l1) (if l1 > l0 then l1 else l0) of
           Inl brk \<Rightarrow> Inl (brk, (x0, y0, x1, y1, l0, l1))
         | Inr c \<Rightarrow>
             if l1 > l0
             then Inr (x0, y0, fst c, snd c, l0, LocationRelativeToViewPort b (fst c) (snd c))
             else Inr (fst c, snd c, x1, y1, LocationRelativeToViewPort b (fst c) (snd c), l1)))"
  by (simp add: clip_body_def Let_def split_def split: sum.splits)

lemma clip_body_exit: "clip_body b u = Inl (brk, t) \<Longrightarrow> t = u"
  by (cases u) (simp add: clip_body_eq split: if_splits sum.splits)

lemma clip_body_BothInside:
  assumes "clip_body b (x0, y0, x1, y1, l0, l1) = Inl (BothInside, t)"
  shows "l0 = 0 \<and> l1 = 0"
proof (rule ccontr)
  assume n: "\<not> (l0 = 0 \<and> l1 = 0)"
  then have "l0 OR l1 \<noteq> 0" by (simp add: or_eq_0_iff)
  then obtain k where "clip_intersection b (x0, y0, x1, y1, l0, l1) k = Inl BothInside"
    using assms by (auto simp add: clip_body_eq split: if_splits sum.splits)
  then show False using clip_intersection_Inl by blast
qed

lemma clip_body_inv:
  assumes "clip_inv b u" "clip_body b u = Inr u'"
  shows "clip_inv b u'"
proof -
  obtain x0 y0 x1 y1 l0 l1 where u: "u = (x0, y0, x1, y1, l0, l1)" by (cases u)
  show ?thesis
    using assms unfolding u clip_body_eq
    by (simp add: clip_inv_def split: if_splits sum.splits) auto
qed

lemma clip_init_inv: "clip_inv b (clip_init b p0 p1)"
  by (simp add: clip_inv_def clip_init_def)

lemma clip_loop_exit:
  assumes "clip_loop b (clip_init b p0 p1) = Some (brk, t)"
  shows "clip_inv b t \<and> clip_body b t = Inl (brk, t)"
proof -
  have "\<exists>u. clip_inv b u \<and> clip_body b u = Inl (brk, t)"
  proof (rule clip_loop_rule[OF assms])
    show "clip_inv b (clip_init b p0 p1)" by (rule clip_init_inv)
    show "clip_inv b u'" if "clip_inv b u" "clip_body b u = Inr u'" for u u'
      using that by (rule clip_body_inv)
  qed
  then obtain u where u: "clip_inv b u" "clip_body b u = Inl (brk, t)" by (elim exE conjE)
  from clip_body_exit[OF u(2)] u show ?thesis by simp
qed

lemma ClipToViewPort_Endpoints:
  assumes "ClipToViewPort b p0 p1 = Some (Endpoints q0 q1)"
  shows "LocationRelativeToViewPort b (fst q0) (snd q0) = 0 \<and>
         LocationRelativeToViewPort b (fst q1) (snd q1) = 0"
proof -
  from assms obtain brk t where l: "clip_loop b (clip_init b p0 p1) = Some (brk, t)"
    by (auto simp add: ClipToViewPort_def split: option.splits)
  obtain x0 y0 x1 y1 l0 l1 where t: "t = (x0, y0, x1, y1, l0, l1)" by (cases t)
  from assms l have brk: "brk = BothInside" and q: "q0 = (x0, y0)" "q1 = (x1, y1)"
    by (auto simp add: ClipToViewPort_def t split: clip_break.splits)
  from clip_loop_exit[OF l] have "clip_inv b t" "clip_body b t = Inl (BothInside, t)"
    by (simp_all add: brk)
  then show ?thesis using clip_body_BothInside[of b x0 y0 x1 y1 l0 l1 t]
    by (simp add: t q clip_inv_def)
qed

lemma clip_loop_zero:
  "clip_loop b (x0, y0, x1, y1, 0, 0) = Some (BothInside, (x0, y0, x1, y1, 0, 0))"
  by (subst clip_loop.simps) (simp add: clip_body_def)

lemma ClipToViewPort_inside:
  assumes "in_bounds b (x0, y0)" "in_bounds b (x1, y1)"
  shows "ClipToViewPort b (x0, y0) (x1, y1) = Some (Endpoints (x0, y0) (x1, y1))"
  using assms by (simp add: in_bounds_Location ClipToViewPort_def clip_init_def clip_loop_zero)


lemma ClipToViewPort_one_boundary:
  assumes side: "side \<in> {kTop, kBottom, kRight, kLeft}"
    and p0: "LocationRelativeToViewPort b x0 y0 = 0"
    and p1: "LocationRelativeToViewPort b x1 y1 = side"
    and ci: "clip_intersection b (x0, y0, x1, y1, 0, side) side = Inr q"
  shows "on_boundary b side q"
    and "in_bounds b q \<Longrightarrow> ClipToViewPort b (x0, y0) (x1, y1) = Some (Endpoints (x0, y0) q)"
proof -
  show "on_boundary b side q"
    using clip_intersection_side[OF ci] side by (auto simp add: k_defs)
  assume "in_bounds b q"
  then have z: "LocationRelativeToViewPort b (fst q) (snd q) = 0"
    using in_bounds_Location[of b "fst q" "snd q"] by simp
  have s: "side \<noteq> 0" "0 < side" using side by (auto simp add: k_defs)
  have "clip_body b (x0, y0, x1, y1, 0, side) = Inr (x0, y0, fst q, snd q, 0, 0)"
    using s ci z by (simp add: clip_body_eq)
  then have "clip_loop b (x0, y0, x1, y1, 0, side) = Some (BothInside, (x0, y0, fst q, snd q, 0, 0))"
    by (subst clip_loop.simps) (simp add: clip_loop_zero)
  then show "ClipToViewPort b (x0, y0) (x1, y1) = Some (Endpoints (x0, y0) q)"
    by (simp add: ClipToViewPort_def clip_init_def p0 p1)
qed





lemma clip_loop_no_InternalError:
  "clip_loop b (clip_init b p0 p1) \<noteq> Some (InternalError, t)"
proof
  assume "clip_loop b (clip_init b p0 p1) = Some (InternalError, t)"
  from clip_loop_exit[OF this] have inv: "clip_inv b t" and body: "clip_body b t = Inl (InternalError, t)"
    by simp_all
  obtain x0 y0 x1 y1 l0 l1 where t: "t = (x0, y0, x1, y1, l0, l1)" by (cases t)
  have l: "l0 = LocationRelativeToViewPort b x0 y0" "l1 = LocationRelativeToViewPort b x1 y1"
    using inv by (simp_all add: clip_inv_def t)
  have nz: "l0 OR l1 \<noteq> 0"
  proof
    assume "l0 OR l1 = 0"
    then have "clip_body b t = Inl (BothInside, t)" by (simp add: t clip_body_eq)
    then show False using body by simp
  qed
  have na: "l0 AND l1 = 0"
  proof (rule ccontr)
    assume "l0 AND l1 \<noteq> 0"
    then have "clip_body b t = Inl (SharedZone, t)" using nz by (simp add: t clip_body_eq)
    then show False using body by simp
  qed
  define k where "k = (if l1 > l0 then l1 else l0)"
  have ci: "clip_intersection b t k = Inl InternalError"
    using body nz na unfolding t clip_body_eq k_def by (simp split: sum.splits if_splits)
  have "l0 \<noteq> 0 \<or> l1 \<noteq> 0" using nz by (simp add: or_eq_0_iff)
  then have "k \<noteq> 0" using Location_nonneg[of b x0 y0] Location_nonneg[of b x1 y1] l
    unfolding k_def by (cases "l1 > l0") auto
  moreover have "k = LocationRelativeToViewPort b x0 y0 \<or> k = LocationRelativeToViewPort b x1 y1"
    using l unfolding k_def by simp
  ultimately consider "k = LocationRelativeToViewPort b x0 y0" "LocationRelativeToViewPort b x0 y0 \<noteq> 0"
    | "k = LocationRelativeToViewPort b x1 y1" "LocationRelativeToViewPort b x1 y1 \<noteq> 0"
    by metis
  then show False
  proof cases
    case 1
    then show ?thesis using clip_intersection_InternalError[OF ci] Location_nonzero[OF 1(2)] by simp
  next
    case 2
    then show ?thesis using clip_intersection_InternalError[OF ci] Location_nonzero[OF 2(2)] by simp
  qed
qed

lemma AddToViewportLines_cases:
  assumes "AddToViewportLines b p0 p1 lines = Some lines'"
  shows "lines' = lines \<or> (\<exists>q0 q1. lines' = lines @ [q0, q1] \<and> in_bounds b q0 \<and> in_bounds b q1)"
proof -
  from assms obtain r where r: "ClipToViewPort b p0 p1 = Some r"
    by (auto simp add: AddToViewportLines_def split: option.splits)
  show ?thesis
  proof (cases r)
    case (Endpoints q0 q1)
    from ClipToViewPort_Endpoints[OF r[unfolded Endpoints]]
    have i: "in_bounds b q0" "in_bounds b q1"
      using in_bounds_Location[of b "fst q0" "snd q0"] in_bounds_Location[of b "fst q1" "snd q1"]
      by simp_all
    have "lines' = lines @ [q0, q1]" using assms r Endpoints by (simp add: AddToViewportLines_def)
    then show ?thesis using i by blast
  next
    case NaNPair
    then show ?thesis using assms r by (simp add: AddToViewportLines_def)
  qed
qed

lemma AddEdgesToViewportLines_inv:
  "AddEdgesToViewportLines b edges lines = Some ls \<Longrightarrow>
     even (length lines) \<Longrightarrow> \<forall>p \<in> set lines. in_bounds b p \<Longrightarrow>
     even (length ls) \<and> (\<forall>p \<in> set ls. in_bounds b p)"
proof (induction edges arbitrary: lines)
  case Nil
  then show ?case by simp
next
  case (Cons e edges)
  obtain p0 p1 where e: "e = (p0, p1)" by (cases e)
  from Cons.prems(1) obtain lines' where
    l: "AddToViewportLines b p0 p1 lines = Some lines'"
    and rest: "AddEdgesToViewportLines b edges lines' = Some ls"
    by (auto simp add: e split: option.splits)
  from AddToViewportLines_cases[OF l]
  have "even (length lines')" "\<forall>p \<in> set lines'. in_bounds b p"
    using Cons.prems(2,3) by auto
  from Cons.IH[OF rest this] show ?case .
qed

lemma intersect_at_ZeroDivisor:
  "intersect_at a0 a1 b0 b1 bm = Inl ZeroDivisor \<Longrightarrow> round_double (b1 - b0) = Some 0"
  by (simp add: intersect_at_def split: option.splits if_splits)

lemma intersect_at_grid: "intersect_at a0 a1 b0 b1 bm = Inr r \<Longrightarrow> r \<in> double_grid"
  by (simp add: intersect_at_def round_double_grid split: option.splits if_splits)

lemma clip_intersection_grid:
  assumes "xmin \<in> double_grid" "ymin \<in> double_grid" "xmax \<in> double_grid" "ymax \<in> double_grid"
    and "clip_intersection (xmin, ymin, xmax, ymax) s k = Inr c"
  shows "fst c \<in> double_grid \<and> snd c \<in> double_grid"
proof -
  obtain x0 y0 x1 y1 l0 l1 where s: "s = (x0, y0, x1, y1, l0, l1)" by (cases s)
  show ?thesis
    using assms unfolding clip_intersection_def s prod.case
    by (simp split: if_splits sum.splits) (use intersect_at_grid in auto)
qed

lemma Location_same_y:
  assumes "LocationRelativeToViewPort b x0 y AND LocationRelativeToViewPort b x1 y = 0"
  shows "LocationRelativeToViewPort b x0 y AND kTop = 0" "LocationRelativeToViewPort b x0 y AND kBottom = 0"
    "LocationRelativeToViewPort b x1 y AND kTop = 0" "LocationRelativeToViewPort b x1 y AND kBottom = 0"
  using assms by (cases b; simp add: Location_eq k_defs split: if_splits)+

lemma Location_same_x:
  assumes "LocationRelativeToViewPort b x y0 AND LocationRelativeToViewPort b x y1 = 0"
  shows "LocationRelativeToViewPort b x y0 AND kRight = 0" "LocationRelativeToViewPort b x y0 AND kLeft = 0"
    "LocationRelativeToViewPort b x y1 AND kRight = 0" "LocationRelativeToViewPort b x y1 AND kLeft = 0"
  using assms by (cases b; simp add: Location_eq k_defs split: if_splits)+

lemma clip_intersection_ZeroDivisor:
  assumes "clip_intersection b (x0, y0, x1, y1, l0, l1) k = Inl ZeroDivisor"
  shows "(k AND kTop \<noteq> 0 \<or> k AND kBottom \<noteq> 0) \<and> round_double (y1 - y0) = Some 0 \<or>
         (k AND kRight \<noteq> 0 \<or> k AND kLeft \<noteq> 0) \<and> round_double (x1 - x0) = Some 0"
proof -
  obtain xmin ymin xmax ymax where b: "b = (xmin, ymin, xmax, ymax)" by (cases b)
  show ?thesis
    using assms unfolding clip_intersection_def b prod.case
    by (simp split: if_splits sum.splits) (use intersect_at_ZeroDivisor in blast)+
qed

lemma clip_intersection_no_ZeroDivisor:
  assumes g: "x0 \<in> double_grid" "y0 \<in> double_grid" "x1 \<in> double_grid" "y1 \<in> double_grid"
    and l: "l0 = LocationRelativeToViewPort b x0 y0" "l1 = LocationRelativeToViewPort b x1 y1"
    and na: "l0 AND l1 = 0" and k: "k = l0 \<or> k = l1"
  shows "clip_intersection b (x0, y0, x1, y1, l0, l1) k \<noteq> Inl ZeroDivisor"
proof
  assume "clip_intersection b (x0, y0, x1, y1, l0, l1) k = Inl ZeroDivisor"
  from clip_intersection_ZeroDivisor[OF this]
  consider (y) "k AND kTop \<noteq> 0 \<or> k AND kBottom \<noteq> 0" "round_double (y1 - y0) = Some 0"
    | (x) "k AND kRight \<noteq> 0 \<or> k AND kLeft \<noteq> 0" "round_double (x1 - x0) = Some 0"
    by blast
  then show False
  proof cases
    case y
    have "y1 - y0 = 0" by (rule round_double_zero[OF grid_diff[OF g(4) g(2)] y(2)])
    then have e: "y1 = y0" by simp
    from Location_same_y[of b x0 y0 x1] na l e
    have "l0 AND kTop = 0" "l0 AND kBottom = 0" "l1 AND kTop = 0" "l1 AND kBottom = 0" by simp_all
    then show False using y(1) k by auto
  next
    case x
    have "x1 - x0 = 0" by (rule round_double_zero[OF grid_diff[OF g(3) g(1)] x(2)])
    then have e: "x1 = x0" by simp
    from Location_same_x[of b x0 y0 y1] na l e
    have "l0 AND kRight = 0" "l0 AND kLeft = 0" "l1 AND kRight = 0" "l1 AND kLeft = 0" by simp_all
    then show False using x(1) k by auto
  qed
qed

text \<open>
  No pass of the loop divides by zero when the bounds and the endpoints are doubles: the
  difference of two distinct doubles does not round to zero, and the endpoint that is
  beyond a side differs from the other endpoint in the coordinate of that side.
\<close>
lemma clip_loop_no_ZeroDivisor:
  assumes b: "is_double xmin" "is_double ymin" "is_double xmax" "is_double ymax"
    and p: "is_double x0" "is_double y0" "is_double x1" "is_double y1"
  shows "clip_loop (xmin, ymin, xmax, ymax) (clip_init (xmin, ymin, xmax, ymax) (x0, y0) (x1, y1)) \<noteq>
           Some (ZeroDivisor, t)"
proof
  let ?b = "(xmin, ymin, xmax, ymax)"
  define I where "I u \<longleftrightarrow> clip_inv ?b u \<and> fst u \<in> double_grid \<and> fst (snd u) \<in> double_grid \<and>
      fst (snd (snd u)) \<in> double_grid \<and> fst (snd (snd (snd u))) \<in> double_grid" for u :: clip_state
  note gb = b[THEN is_double_grid]
  assume l: "clip_loop ?b (clip_init ?b (x0, y0) (x1, y1)) = Some (ZeroDivisor, t)"
  have "\<exists>u. I u \<and> clip_body ?b u = Inl (ZeroDivisor, t)"
  proof (rule clip_loop_rule[OF l])
    show "I (clip_init ?b (x0, y0) (x1, y1))"
      using p[THEN is_double_grid] clip_init_inv[of ?b "(x0, y0)" "(x1, y1)"]
      by (simp add: I_def clip_init_def)
    fix u u' assume u: "I u" and body: "clip_body ?b u = Inr u'"
    obtain a0 c0 a1 c1 l0 l1 where uu: "u = (a0, c0, a1, c1, l0, l1)" by (cases u)
    have inv: "clip_inv ?b u'" using clip_body_inv[OF _ body] u by (simp add: I_def)
    from body obtain c where c: "clip_intersection ?b u (if l1 > l0 then l1 else l0) = Inr c"
      and u': "u' = (if l1 > l0
                 then (a0, c0, fst c, snd c, l0, LocationRelativeToViewPort ?b (fst c) (snd c))
                 else (fst c, snd c, a1, c1, LocationRelativeToViewPort ?b (fst c) (snd c), l1))"
      unfolding uu clip_body_eq by (simp split: if_splits sum.splits)
    from clip_intersection_grid[OF gb c] u inv show "I u'"
      unfolding u' I_def uu by (cases "l1 > l0") simp_all
  qed
  then obtain u where u: "I u" and body: "clip_body ?b u = Inl (ZeroDivisor, t)" by (elim exE conjE)
  obtain a0 c0 a1 c1 l0 l1 where uu: "u = (a0, c0, a1, c1, l0, l1)" by (cases u)
  have g: "a0 \<in> double_grid" "c0 \<in> double_grid" "a1 \<in> double_grid" "c1 \<in> double_grid"
    and ll: "l0 = LocationRelativeToViewPort ?b a0 c0" "l1 = LocationRelativeToViewPort ?b a1 c1"
    using u by (simp_all add: I_def uu clip_inv_def)
  have na: "l0 AND l1 = 0"
  proof (rule ccontr)
    assume "l0 AND l1 \<noteq> 0"
    then have "clip_body ?b u = Inl (BothInside, u) \<or> clip_body ?b u = Inl (SharedZone, u)"
      unfolding uu clip_body_eq by simp
    then show False using body by auto
  qed
  have "clip_intersection ?b u (if l1 > l0 then l1 else l0) = Inl ZeroDivisor"
    using body na unfolding uu clip_body_eq by (simp split: if_splits sum.splits)
  moreover have "clip_intersection ?b u (if l1 > l0 then l1 else l0) \<noteq> Inl ZeroDivisor"
    unfolding uu by (rule clip_intersection_no_ZeroDivisor[OF g ll na]) simp
  ultimately show False by simp
qed


lemma round_double_exact:
  "round_double 1 = Some 1" "round_double 2 = Some 2"
  "round_double (1 / 2) = Some (1 / 2)" "round_double (1 / 4) = Some (1 / 4)"
  using round_doubleI[where x = 1 and m = 52 and n = 4503599627370496]
    round_doubleI[where x = 2 and m = 51 and n = 4503599627370496]
    round_doubleI[where x = "1 / 2" and m = 53 and n = 4503599627370496]
    round_doubleI[where x = "1 / 4" and m = 54 and n = 4503599627370496]
  by simp_all



lemma clip_example_right:
  "clip_intersection (- 1, - 1, 1, 1) (0, 0, 2, 1, 0, kRight) kRight = Inr (1, 1 / 2)"
  by (simp add: clip_intersection_def intersect_at_def k_defs round_double_exact round_double_0)










subsection \<open>What the clipper hands to \<open>AddToViewportLines\<close>\<close>

text \<open>
  What the clipper returns is safe, whatever the rounding. Whenever \<open>ClipToViewPort\<close>
  returns finite endpoints, both lie within the bounds and both outcodes are 0; the reject
  exit gives the NaN pair, and so would the internal-error exit, which is never taken. So
  a call of \<open>AddToViewportLines\<close> that returns has appended exactly two in-bounds points or
  nothing, and the vector accumulated over a sequence of edges has even length and holds
  in-bounds points only.
\<close>
lemma ClipToViewPort_accepts_only_in_bounds:
  "(\<forall>q0 q1. ClipToViewPort b p0 p1 = Some (Endpoints q0 q1) \<longrightarrow>
       in_bounds b q0 \<and> in_bounds b q1 \<and>
       LocationRelativeToViewPort b (fst q0) (snd q0) = 0 \<and>
       LocationRelativeToViewPort b (fst q1) (snd q1) = 0) \<and>
   (\<forall>brk t. clip_loop b (clip_init b p0 p1) = Some (brk, t) \<and> brk \<in> {SharedZone, InternalError} \<longrightarrow>
       ClipToViewPort b p0 p1 = Some NaNPair) \<and>
   (\<forall>t. clip_loop b (clip_init b p0 p1) \<noteq> Some (InternalError, t)) \<and>
   (\<forall>lines'. AddToViewportLines b p0 p1 lines = Some lines' \<longrightarrow>
      lines' = lines \<or>
      (\<exists>q0 q1. lines' = lines @ [q0, q1] \<and> in_bounds b q0 \<and> in_bounds b q1)) \<and>
   (\<forall>ls. AddEdgesToViewportLines b edges [] = Some ls \<longrightarrow>
      even (length ls) \<and> (\<forall>p \<in> set ls. in_bounds b p))"
proof (intro conjI allI impI)
  fix q0 q1 assume r: "ClipToViewPort b p0 p1 = Some (Endpoints q0 q1)"
  from ClipToViewPort_Endpoints[OF r]
  show "LocationRelativeToViewPort b (fst q0) (snd q0) = 0"
    and "LocationRelativeToViewPort b (fst q1) (snd q1) = 0" by simp_all
  then show "in_bounds b q0" and "in_bounds b q1"
    using in_bounds_Location[of b "fst q0" "snd q0"] in_bounds_Location[of b "fst q1" "snd q1"]
    by simp_all
next
  fix brk t
  assume "clip_loop b (clip_init b p0 p1) = Some (brk, t) \<and> brk \<in> {SharedZone, InternalError}"
  then show "ClipToViewPort b p0 p1 = Some NaNPair"
    by (auto simp add: ClipToViewPort_def)
next
  fix t show "clip_loop b (clip_init b p0 p1) \<noteq> Some (InternalError, t)"
    by (rule clip_loop_no_InternalError)
next
  fix lines' assume "AddToViewportLines b p0 p1 lines = Some lines'"
  then show "lines' = lines \<or>
      (\<exists>q0 q1. lines' = lines @ [q0, q1] \<and> in_bounds b q0 \<and> in_bounds b q1)"
    by (rule AddToViewportLines_cases)
next
  fix ls assume l: "AddEdgesToViewportLines b edges [] = Some ls"
  from AddEdgesToViewportLines_inv[OF l]
  show "even (length ls)" and "\<forall>p \<in> set ls. in_bounds b p" by simp_all
qed

lemma clip_example_accept:
  "ClipToViewPort (- 1, - 1, 1, 1) (0, 0) (2, 1) = Some (Endpoints (0, 0) (1, 1 / 2))"
  using ClipToViewPort_one_boundary(2)[of kRight "(- 1, - 1, 1, 1)" 0 0 2 1 "(1, 1 / 2)"]
    clip_example_right
  by (simp add: Location_eq k_defs)

lemma clip_example_reject:
  "clip_loop (- 1, - 1, 1, 1) (clip_init (- 1, - 1, 1, 1) (2, 0) (3, 5)) =
     Some (SharedZone, (2, 0, 3, 5, 2, 10))"
  by (subst clip_loop.simps)
    (simp add: clip_init_def clip_body_def LocationRelativeToViewPort_def k_defs)

lemma clip_example_edges:
  "AddEdgesToViewportLines (- 1, - 1, 1, 1) [((0, 0), (2, 1)), ((2, 0), (3, 5))] [] =
     Some [(0, 0), (1, 1 / 2)]"
  using clip_example_accept clip_example_reject
  by (simp add: AddToViewportLines_def ClipToViewPort_def)

lemma ClipToViewPort_accepts_only_in_bounds_example:
  "ClipToViewPort (- 1, - 1, 1, 1) (0, 0) (2, 1) = Some (Endpoints (0, 0) (1, 1 / 2)) \<and>
   in_bounds (- 1, - 1, 1, 1) (0, 0) \<and> in_bounds (- 1, - 1, 1, 1) (1, 1 / 2) \<and>
   clip_loop (- 1, - 1, 1, 1) (clip_init (- 1, - 1, 1, 1) (2, 0) (3, 5)) =
     Some (SharedZone, (2, 0, 3, 5, 2, 10)) \<and>
   ClipToViewPort (- 1, - 1, 1, 1) (2, 0) (3, 5) = Some NaNPair \<and>
   AddToViewportLines (- 1, - 1, 1, 1) (0, 0) (2, 1) [] = Some [(0, 0), (1, 1 / 2)] \<and>
   AddEdgesToViewportLines (- 1, - 1, 1, 1) [((0, 0), (2, 1)), ((2, 0), (3, 5))] [] =
     Some [(0, 0), (1, 1 / 2)] \<and>
   even (length [(0 :: real, 0 :: real), (1, 1 / 2)])"
  using ClipToViewPort_accepts_only_in_bounds[of "(- 1, - 1, 1, 1)" "(0, 0)" "(2, 1)" "[]"
      "[((0, 0), (2, 1)), ((2, 0), (3, 5))]"]
    ClipToViewPort_accepts_only_in_bounds[of "(- 1, - 1, 1, 1)" "(2, 0)" "(3, 5)" "[]" "[]"]
    clip_example_accept clip_example_reject clip_example_edges
  by (simp add: AddToViewportLines_def)





subsection \<open>The identifier buffer scan\<close>

lemma unat_byte: "unat (w :: 8 word) < 256"
  using unsigned_less[of w, where 'a=nat] by simp

lemma unat_ucast_8_32: "unat (ucast (w :: 8 word) :: 32 word) = unat w"
proof -
  have "unat w < 2 ^ 32" using unat_byte[of w] by simp
  then show ?thesis by (simp add: unsigned_ucast_eq take_bit_nat_eq_self)
qed

lemma unat_decode: "unat (decode_ogreId idHigh idLow) = unat idHigh * 256 + unat idLow"
proof -
  have a: "unat idHigh < 256" "unat idLow < 256" by (rule unat_byte)+
  then have "unat idHigh * 256 + unat idLow < 2 ^ 32" by simp
  then show ?thesis
    by (simp add: decode_ogreId_def unat_word_ariths unat_ucast_8_32)
qed


lemma for_each_append:
  "for_each body (xs @ ys) s = (case for_each body xs s of None \<Rightarrow> None | Some s' \<Rightarrow> for_each body ys s')"
  by (induction xs arbitrary: s) (auto split: option.splits)

lemma for_each_map:
  "for_each body (map f xs) s = for_each (\<lambda>x. body (f x)) xs s"
  by (induction xs arbitrary: s) (auto split: option.splits)

lemma for_each_nested:
  "for_each (\<lambda>y. for_each (\<lambda>x. body y x) xs) ys s =
     for_each (\<lambda>(y, x). body y x) (concat (map (\<lambda>y. map (\<lambda>x. (y, x)) xs) ys)) s"
  by (induction ys arbitrary: s) (auto simp add: for_each_append for_each_map split: option.splits)

lemma MarkVisibleBoxes_row_major:
  "MarkVisibleBoxes buffer bg width height vis =
     for_each (\<lambda>(y, x). mark_pixel buffer bg width y x) (row_major width height) vis"
  by (simp add: MarkVisibleBoxes_def row_major_def for_each_nested)

lemma VisibleBoundingBoxes_scan_row_major:
  "VisibleBoundingBoxes_scan buffer bg width height st =
     for_each (\<lambda>(y, x). visible_pixel buffer bg width height y x) (row_major width height) st"
  by (simp add: VisibleBoundingBoxes_scan_def row_major_def for_each_nested)

lemma mark_pixel_Some:
  assumes "mark_pixel buffer bg width y x vis = Some vis'"
  shows "vis' = (if pixel_label buffer width (y, x) \<noteq> bg \<and> vis (pixel_ogreId buffer width (y, x)) = None
                 then vis(pixel_ogreId buffer width (y, x) \<mapsto> pixel_label buffer width (y, x))
                 else vis)"
  using assms
  by (auto simp add: mark_pixel_def read_byte_def pixel_label_def pixel_ogreId_def Let_def
      split: option.splits if_splits)

lemma visible_pixel_explicit:
  assumes "visible_pixel buffer bg width height y x (bbs, bds) = Some (bbs', bds')"
  shows "(pixel_label buffer width (y, x) = bg \<and> bbs' = bbs \<and> bds' = bds) \<or>
         (pixel_label buffer width (y, x) \<noteq> bg \<and>
          bbs' = (if bbs (pixel_ogreId buffer width (y, x)) = None
                  then bbs(pixel_ogreId buffer width (y, x) \<mapsto>
                         new_BoundingBox BBT_VISIBLEBOX2D (pixel_label buffer width (y, x)))
                  else bbs) \<and>
          (\<exists>bd. bds' = bds(pixel_ogreId buffer width (y, x) \<mapsto> bd)))"
  using assms
  by (auto simp add: visible_pixel_def read_byte_def pixel_label_def pixel_ogreId_def Let_def
      split: option.splits if_splits)

lemma visible_pixel_Some:
  assumes "visible_pixel buffer bg width height y x (bbs, bds) = Some (bbs', bds')"
  shows "map_option label \<circ> bbs' =
           (if pixel_label buffer width (y, x) \<noteq> bg \<and>
               (map_option label \<circ> bbs) (pixel_ogreId buffer width (y, x)) = None
            then (map_option label \<circ> bbs)(pixel_ogreId buffer width (y, x) \<mapsto> pixel_label buffer width (y, x))
            else map_option label \<circ> bbs)"
  using visible_pixel_explicit[OF assms]
  by (auto simp add: new_BoundingBox_def fun_eq_iff)

lemma visible_pixel_dom:
  assumes "visible_pixel buffer bg width height y x (bbs, bds) = Some (bbs', bds')"
    and "dom bds = dom bbs"
  shows "dom bds' = dom bbs'"
proof -
  let ?i = "pixel_ogreId buffer width (y, x)"
  from visible_pixel_explicit[OF assms(1)] consider
    "bbs' = bbs" "bds' = bds"
    | bd where "bbs' = (if bbs ?i = None
                  then bbs(?i \<mapsto> new_BoundingBox BBT_VISIBLEBOX2D (pixel_label buffer width (y, x)))
                  else bbs)" "bds' = bds(?i \<mapsto> bd)"
    by blast
  then show ?thesis
  proof cases
    case 1
    then show ?thesis using assms(2) by simp
  next
    case 2
    have "dom bds' = insert ?i (dom bbs)" using 2(2) assms(2) by simp
    moreover have "dom bbs' = insert ?i (dom bbs)"
      using 2(1) by (cases "bbs ?i") (auto simp add: insert_absorb)
    ultimately show ?thesis by simp
  qed
qed

lemma first_wins:
  assumes step: "\<And>p s s'. step p s = Some s' \<Longrightarrow>
      \<alpha> s' = (if lab p \<noteq> bg \<and> \<alpha> s (oid p) = None then (\<alpha> s)(oid p \<mapsto> lab p) else \<alpha> s)"
  shows "for_each step ps s = Some s' \<Longrightarrow>
     \<alpha> s' i = (case \<alpha> s i of Some l \<Rightarrow> Some l
                | None \<Rightarrow> map_option lab (find (\<lambda>p. lab p \<noteq> bg \<and> oid p = i) ps))"
proof (induction ps arbitrary: s)
  case Nil
  then show ?case by (auto split: option.splits)
next
  case (Cons p ps)
  then obtain s1 where s1: "step p s = Some s1" "for_each step ps s1 = Some s'"
    by (auto split: option.splits)
  from Cons.IH[OF s1(2)] step[OF s1(1)] show ?case
    by (auto split: option.splits)
qed


lemma for_each_inv:
  assumes "\<And>p s s'. step p s = Some s' \<Longrightarrow> P s \<Longrightarrow> P s'"
  shows "for_each step ps s = Some s' \<Longrightarrow> P s \<Longrightarrow> P s'"
proof (induction ps arbitrary: s)
  case Nil
  then show ?case by simp
next
  case (Cons p ps)
  then obtain s1 where s1: "step p s = Some s1" "for_each step ps s1 = Some s'"
    by (auto split: option.splits)
  from Cons.IH[OF s1(2)] assms[OF s1(1) Cons.prems(2)] show ?case .
qed

lemma for_each_total:
  assumes "\<And>p s. p \<in> set ps \<Longrightarrow> P s \<Longrightarrow> \<exists>s'. step p s = Some s' \<and> P s'" and "P s"
  shows "\<exists>s'. for_each step ps s = Some s' \<and> P s'"
  using assms
proof (induction ps arbitrary: s)
  case Nil
  then show ?case by simp
next
  case (Cons p ps)
  then obtain s1 where s1: "step p s = Some s1" "P s1" by fastforce
  from Cons.IH[of s1] Cons.prems(1) s1(2) obtain s' where "for_each step ps s1 = Some s'" "P s'"
    by auto
  then show ?case using s1 by auto
qed

lemma pixel_index:
  fixes width height :: "32 word"
  assumes sz: "3 * unat width * unat height \<le> 2 ^ 32"
    and p: "(y, x) \<in> set (row_major width height)" and k: "k < 3"
  shows "unat ((y * width + x) * 3 + of_nat k) < 3 * unat width * unat height"
proof -
  from p obtain j i where j: "j < unat height" "y = of_nat j" and i: "i < unat width" "x = of_nat i"
    by (auto simp add: row_major_def uint32_upto_def)
  have "j * unat width + i < unat width * unat height"
  proof -
    have "j * unat width + i < j * unat width + unat width" using i by simp
    also have "\<dots> = (j + 1) * unat width" by simp
    also have "\<dots> \<le> unat height * unat width" using j by (intro mult_right_mono) simp_all
    finally show ?thesis by (simp add: mult.commute)
  qed
  then have b: "(j * unat width + i) * 3 + k < 3 * unat width * unat height" using k by simp
  have "unat ((y * width + x) * 3 + of_nat k) = ((j * unat width + i) * 3 + k) mod 2 ^ 32"
    by (simp add: j i unat_word_ariths unat_of_nat mod_simps)
  also have "\<dots> = (j * unat width + i) * 3 + k" using b sz by simp
  finally show ?thesis using b by simp
qed

lemma mark_pixel_total:
  assumes sz: "3 * unat width * unat height \<le> 2 ^ 32"
    and len: "length buffer = 3 * unat width * unat height"
    and p: "(y, x) \<in> set (row_major width height)"
  shows "\<exists>vis'. mark_pixel buffer bg width y x vis = Some vis'"
  using pixel_index[OF sz p, of 0] pixel_index[OF sz p, of 1] pixel_index[OF sz p, of 2] len
  by (simp add: mark_pixel_def read_byte_def Let_def)


lemma visible_pixel_total:
  assumes sz: "3 * unat width * unat height \<le> 2 ^ 32"
    and len: "length buffer = 3 * unat width * unat height"
    and p: "(y, x) \<in> set (row_major width height)"
    and d: "dom (snd st) = dom (fst st)"
  shows "\<exists>st'. visible_pixel buffer bg width height y x st = Some st' \<and> dom (snd st') = dom (fst st')"
proof -
  obtain bbs bds where st: "st = (bbs, bds)" by (cases st)
  have d': "dom bds = dom bbs" using d st by simp
  have r: "\<And>i bb. bbs i = Some bb \<Longrightarrow> bds i = None \<Longrightarrow> False" using d' by (metis domIff option.distinct(1))
  have "\<exists>st'. visible_pixel buffer bg width height y x (bbs, bds) = Some st'"
    using pixel_index[OF sz p, of 0] pixel_index[OF sz p, of 1] pixel_index[OF sz p, of 2] len
    by (auto simp add: visible_pixel_def read_byte_def Let_def split: option.splits dest: r)
  then obtain bbs' bds' where "visible_pixel buffer bg width height y x (bbs, bds) = Some (bbs', bds')"
    by fastforce
  then show ?thesis using visible_pixel_dom[OF _ d'] st by auto
qed

lemma MarkVisibleBoxes_total:
  assumes "3 * unat width * unat height \<le> 2 ^ 32"
    and "length buffer = 3 * unat width * unat height"
  shows "\<exists>vis'. MarkVisibleBoxes buffer bg width height vis = Some vis'"
  using for_each_total[of "row_major width height" "\<lambda>_. True"
      "\<lambda>(y, x). mark_pixel buffer bg width y x" vis]
    mark_pixel_total[OF assms]
  by (auto simp add: MarkVisibleBoxes_row_major)

lemma VisibleBoundingBoxes_scan_total:
  assumes "3 * unat width * unat height \<le> 2 ^ 32"
    and "length buffer = 3 * unat width * unat height"
  shows "\<exists>bbs bds. VisibleBoundingBoxes_scan buffer bg width height (Map.empty, Map.empty) = Some (bbs, bds)"
  using for_each_total[of "row_major width height" "\<lambda>st. dom (snd st) = dom (fst st)"
      "\<lambda>(y, x). visible_pixel buffer bg width height y x" "(Map.empty, Map.empty)"]
    visible_pixel_total[OF assms]
  by (auto simp add: VisibleBoundingBoxes_scan_row_major)

lemma MarkVisibleBoxes_first:
  assumes "MarkVisibleBoxes buffer bg width height vis = Some vis'"
  shows "vis' i = (case vis i of Some l \<Rightarrow> Some l | None \<Rightarrow> first_label buffer bg width height i)"
proof -
  let ?step = "\<lambda>p. mark_pixel buffer bg width (fst p) (snd p)"
  have run: "for_each ?step (row_major width height) vis = Some vis'"
    using assms by (simp add: MarkVisibleBoxes_row_major split_def)
  have step: "\<And>p s s'. ?step p s = Some s' \<Longrightarrow>
      s' = (if pixel_label buffer width p \<noteq> bg \<and> s (pixel_ogreId buffer width p) = None
            then s(pixel_ogreId buffer width p \<mapsto> pixel_label buffer width p) else s)"
    using mark_pixel_Some by (metis prod.collapse)
  show ?thesis
    unfolding first_label_def
    by (rule first_wins[where \<alpha> = "\<lambda>s. s" and step = ?step, OF step run])
qed

lemma VisibleBoundingBoxes_scan_first:
  assumes "VisibleBoundingBoxes_scan buffer bg width height st = Some st'"
  shows "map_option label (fst st' i) =
           (case map_option label (fst st i) of Some l \<Rightarrow> Some l
            | None \<Rightarrow> first_label buffer bg width height i)"
proof -
  let ?step = "\<lambda>p. visible_pixel buffer bg width height (fst p) (snd p)"
  let ?\<alpha> = "\<lambda>s :: visible_state. map_option label \<circ> fst s"
  have run: "for_each ?step (row_major width height) st = Some st'"
    using assms by (simp add: VisibleBoundingBoxes_scan_row_major split_def)
  have step: "\<And>p s s'. ?step p s = Some s' \<Longrightarrow>
      ?\<alpha> s' = (if pixel_label buffer width p \<noteq> bg \<and> ?\<alpha> s (pixel_ogreId buffer width p) = None
            then (?\<alpha> s)(pixel_ogreId buffer width p \<mapsto> pixel_label buffer width p) else ?\<alpha> s)"
  proof -
    fix p s s' assume a: "?step p s = Some s'"
    obtain y x bbs bds bbs' bds' where e: "p = (y, x)" "s = (bbs, bds)" "s' = (bbs', bds')"
      by (cases p, cases s, cases s') auto
    from visible_pixel_Some[OF a[unfolded e fst_conv snd_conv]]
    show "?\<alpha> s' = (if pixel_label buffer width p \<noteq> bg \<and> ?\<alpha> s (pixel_ogreId buffer width p) = None
            then (?\<alpha> s)(pixel_ogreId buffer width p \<mapsto> pixel_label buffer width p) else ?\<alpha> s)"
      by (simp add: e)
  qed
  have "?\<alpha> st' i = (case ?\<alpha> st i of Some l \<Rightarrow> Some l
            | None \<Rightarrow> map_option (pixel_label buffer width)
                 (find (\<lambda>p. pixel_label buffer width p \<noteq> bg \<and> pixel_ogreId buffer width p = i) (row_major width height)))"
    by (rule first_wins[where \<alpha> = ?\<alpha> and step = ?step, OF step run])
  then show ?thesis by (simp add: first_label_def split: option.splits)
qed

lemma VisibleBoundingBoxes_scan_dom:
  assumes "VisibleBoundingBoxes_scan buffer bg width height st = Some st'"
    and "dom (snd st) = dom (fst st)"
  shows "dom (snd st') = dom (fst st')"
proof -
  have "for_each (\<lambda>p. visible_pixel buffer bg width height (fst p) (snd p)) (row_major width height) st = Some st'"
    using assms by (simp add: VisibleBoundingBoxes_scan_row_major split_def)
  from for_each_inv[where P = "\<lambda>s. dom (snd s) = dom (fst s)", OF _ this assms(2)]
  show ?thesis using visible_pixel_dom by (metis prod.collapse)
qed

lemma first_label_Some:
  "first_label buffer bg width height i = Some l \<Longrightarrow>
     l \<noteq> bg \<and> (\<exists>p \<in> set (row_major width height). pixel_ogreId buffer width p = i \<and> pixel_label buffer width p = l)"
  by (auto simp add: first_label_def find_Some_iff)


lemma mark_single_pixel:
  assumes "ucast l \<noteq> bg"
  shows "mark_pixel [idLow, idHigh, l] bg 1 0 0 Map.empty =
           Some [decode_ogreId idHigh idLow \<mapsto> ucast l]"
  using assms by (simp add: mark_pixel_def read_byte_def)

text \<open>
  Claim C5. For every identifier \<open>n\<close> in \<open>[0, 65535]\<close>, the channels \<open>idHigh = n / 256\<close> and
  \<open>idLow = n % 256\<close> decode to \<open>n\<close> under the rule \<open>idHigh * 256 + idLow\<close>, and this is the
  identifier the buffer scan records for a pixel that holds these channels.
\<close>
theorem decode_ogreId_roundtrip:
  "n \<le> 65535 \<Longrightarrow>
     unat (decode_ogreId (of_nat (n div 256)) (of_nat (n mod 256))) = n \<and>
     (ucast l \<noteq> backgroundLabel \<longrightarrow>
        mark_pixel [of_nat (n mod 256), of_nat (n div 256), l] backgroundLabel 1 0 0 Map.empty =
          Some [of_nat n \<mapsto> ucast l])"
proof -
  assume n: "n \<le> 65535"
  then have "n div 256 < 256" by simp
  then have u: "unat (decode_ogreId (of_nat (n div 256)) (of_nat (n mod 256))) = n"
    by (simp add: unat_decode unat_of_nat)
  have "unat (of_nat n :: 32 word) = n" using n by (simp add: unat_of_nat)
  with u have "decode_ogreId (of_nat (n div 256)) (of_nat (n mod 256)) = of_nat n"
    by (simp add: word_unat_eq_iff)
  then show ?thesis using u mark_single_pixel by simp
qed

theorem decode_ogreId_roundtrip_witness:
  "(4660 :: nat) \<le> 65535 \<and> unat (decode_ogreId 18 52) = 4660 \<and>
   mark_pixel [52, 18, 3] 0 1 0 0 Map.empty = Some [4660 \<mapsto> 3]"
  using decode_ogreId_roundtrip[of 4660 3 0] by simp


lemma uint32_upto_2: "uint32_upto 2 = [0, 1]"
  by (simp add: uint32_upto_def upt_rec)

lemma scan_example_mark:
  "MarkVisibleBoxes [5,0,1, 7,0,2, 7,0,9, 7,0,3] 9 2 2 Map.empty = Some [5 \<mapsto> 1, 7 \<mapsto> 2]"
  by (simp add: MarkVisibleBoxes_def uint32_upto_2 mark_pixel_def read_byte_def decode_ogreId_def)

lemma scan_example_visible:
  "VisibleBoundingBoxes_scan [5,0,1, 7,0,2, 7,0,9, 7,0,3] 9 2 2 (Map.empty, Map.empty) =
     Some ([5 \<mapsto> new_BoundingBox BBT_VISIBLEBOX2D 1, 7 \<mapsto> new_BoundingBox BBT_VISIBLEBOX2D 2],
           [5 \<mapsto> (0, 0, 0, 0), 7 \<mapsto> (1, 0, 1, 1)])"
  by (simp add: VisibleBoundingBoxes_scan_def uint32_upto_2 visible_pixel_def read_byte_def decode_ogreId_def)

lemma scan_example_bg:
  "pixel_label [5,0,1, 7,0,2, 7,0,9, 7,0,3] 2 (1, 0) = 9"
  "mark_pixel [5,0,1, 7,0,2, 7,0,9, 7,0,3] 9 2 1 0 [5 \<mapsto> 1, 7 \<mapsto> 2] = Some [5 \<mapsto> 1, 7 \<mapsto> 2]"
  "first_label [5,0,1, 7,0,2, 7,0,9, 7,0,3] 9 2 2 7 = Some 2"
  by (simp_all add: pixel_label_def mark_pixel_def read_byte_def first_label_def row_major_def
      uint32_upto_2 pixel_ogreId_def decode_ogreId_def)

text \<open>
  Claim C6. A pixel whose label is the background label contributes nothing: the pixel
  step of \<open>MarkVisibleBoxes\<close> leaves \<open>visibleBoxesLabel\<close> as it is, and the pixel step of
  \<open>VisibleBoundingBoxes\<close> leaves both the boxes and their boundaries as they are. After a
  scan that starts from empty maps, the label recorded for an identifier is the label of
  the first non-background pixel of that identifier in row-major order, so no recorded
  label is the background label, and boundaries exist for exactly the recorded boxes. The
  scan has a result whenever the buffer holds \<open>3 * width * height\<close> bytes.
\<close>
theorem scan_excludes_background_first_label_wins:
  "(pixel_label buffer width (y, x) = backgroundLabel \<longrightarrow>
      (\<forall>vis vis'. mark_pixel buffer backgroundLabel width y x vis = Some vis' \<longrightarrow> vis' = vis) \<and>
      (\<forall>st st'. visible_pixel buffer backgroundLabel width height y x st = Some st' \<longrightarrow> st' = st)) \<and>
   (MarkVisibleBoxes buffer backgroundLabel width height Map.empty = Some visibleBoxesLabel \<longrightarrow>
      (\<forall>ogreId. visibleBoxesLabel ogreId = first_label buffer backgroundLabel width height ogreId) \<and>
      (\<forall>ogreId l. visibleBoxesLabel ogreId = Some l \<longrightarrow> l \<noteq> backgroundLabel)) \<and>
   (VisibleBoundingBoxes_scan buffer backgroundLabel width height (Map.empty, Map.empty) =
        Some (boundingboxes, boxesBoundary) \<longrightarrow>
      (\<forall>ogreId. map_option label (boundingboxes ogreId) =
                 first_label buffer backgroundLabel width height ogreId) \<and>
      dom boxesBoundary = dom boundingboxes) \<and>
   (3 * unat width * unat height \<le> 2 ^ 32 \<and> length buffer = 3 * unat width * unat height \<longrightarrow>
      (\<exists>v. MarkVisibleBoxes buffer backgroundLabel width height Map.empty = Some v) \<and>
      (\<exists>b d. VisibleBoundingBoxes_scan buffer backgroundLabel width height (Map.empty, Map.empty) =
               Some (b, d)))"
proof (intro conjI impI allI)
  fix vis vis'
  assume "pixel_label buffer width (y, x) = backgroundLabel"
    and "mark_pixel buffer backgroundLabel width y x vis = Some vis'"
  then show "vis' = vis" using mark_pixel_Some by fastforce
next
  fix st st' :: visible_state
  assume bg: "pixel_label buffer width (y, x) = backgroundLabel"
    and v: "visible_pixel buffer backgroundLabel width height y x st = Some st'"
  obtain bbs bds bbs' bds' where e: "st = (bbs, bds)" "st' = (bbs', bds')"
    by (cases st, cases st') auto
  from visible_pixel_explicit[OF v[unfolded e]] bg show "st' = st" by (simp add: e)
next
  fix ogreId
  assume "MarkVisibleBoxes buffer backgroundLabel width height Map.empty = Some visibleBoxesLabel"
  from MarkVisibleBoxes_first[OF this, of ogreId]
  show "visibleBoxesLabel ogreId = first_label buffer backgroundLabel width height ogreId" by simp
next
  fix ogreId l
  assume "MarkVisibleBoxes buffer backgroundLabel width height Map.empty = Some visibleBoxesLabel"
    and "visibleBoxesLabel ogreId = Some l"
  then have "first_label buffer backgroundLabel width height ogreId = Some l"
    using MarkVisibleBoxes_first[of buffer backgroundLabel width height Map.empty visibleBoxesLabel ogreId]
    by simp
  then show "l \<noteq> backgroundLabel" using first_label_Some by blast
next
  fix ogreId
  assume "VisibleBoundingBoxes_scan buffer backgroundLabel width height (Map.empty, Map.empty) =
        Some (boundingboxes, boxesBoundary)"
  from VisibleBoundingBoxes_scan_first[OF this, of ogreId]
  show "map_option label (boundingboxes ogreId) = first_label buffer backgroundLabel width height ogreId"
    by simp
next
  assume "VisibleBoundingBoxes_scan buffer backgroundLabel width height (Map.empty, Map.empty) =
        Some (boundingboxes, boxesBoundary)"
  from VisibleBoundingBoxes_scan_dom[OF this] show "dom boxesBoundary = dom boundingboxes" by simp
next
  assume "3 * unat width * unat height \<le> 2 ^ 32 \<and> length buffer = 3 * unat width * unat height"
  then show "\<exists>v. MarkVisibleBoxes buffer backgroundLabel width height Map.empty = Some v"
    using MarkVisibleBoxes_total by blast
next
  assume "3 * unat width * unat height \<le> 2 ^ 32 \<and> length buffer = 3 * unat width * unat height"
  then show "\<exists>b d. VisibleBoundingBoxes_scan buffer backgroundLabel width height (Map.empty, Map.empty) =
               Some (b, d)"
    using VisibleBoundingBoxes_scan_total by blast
qed

theorem scan_excludes_background_first_label_wins_witness:
  "pixel_label [5,0,1, 7,0,2, 7,0,9, 7,0,3] 2 (1, 0) = 9 \<and>
   mark_pixel [5,0,1, 7,0,2, 7,0,9, 7,0,3] 9 2 1 0 [5 \<mapsto> 1, 7 \<mapsto> 2] = Some [5 \<mapsto> 1, 7 \<mapsto> 2] \<and>
   MarkVisibleBoxes [5,0,1, 7,0,2, 7,0,9, 7,0,3] 9 2 2 Map.empty = Some [5 \<mapsto> 1, 7 \<mapsto> 2] \<and>
   first_label [5,0,1, 7,0,2, 7,0,9, 7,0,3] 9 2 2 7 = Some 2 \<and>
   VisibleBoundingBoxes_scan [5,0,1, 7,0,2, 7,0,9, 7,0,3] 9 2 2 (Map.empty, Map.empty) =
     Some ([5 \<mapsto> new_BoundingBox BBT_VISIBLEBOX2D 1, 7 \<mapsto> new_BoundingBox BBT_VISIBLEBOX2D 2],
           [5 \<mapsto> (0, 0, 0, 0), 7 \<mapsto> (1, 0, 1, 1)]) \<and>
   (3::nat) * unat (2 :: 32 word) * unat (2 :: 32 word) \<le> 2 ^ 32 \<and>
   length [5,0,1, 7,0,2, 7,0,9, 7,0,3 :: 8 word] = 3 * unat (2 :: 32 word) * unat (2 :: 32 word)"
  using scan_excludes_background_first_label_wins[of "[5,0,1, 7,0,2, 7,0,9, 7,0,3]" 2 1 0 9 2
      "[5 \<mapsto> 1, 7 \<mapsto> 2]"
      "[5 \<mapsto> new_BoundingBox BBT_VISIBLEBOX2D 1, 7 \<mapsto> new_BoundingBox BBT_VISIBLEBOX2D 2]"
      "[5 \<mapsto> (0, 0, 0, 0), 7 \<mapsto> (1, 0, 1, 1)]"]
    scan_example_mark scan_example_visible scan_example_bg
  by simp


subsection \<open>The 2D merge\<close>

lemma uint_of_representable:
  "representable t \<Longrightarrow> uint (word_of_int t :: 32 word) = t"
  by (simp add: representable_def uint_word_of_int take_bit_int_eq_self)

lemma to_uint32_representable:
  "representable (trunc_toward_zero v) \<Longrightarrow> to_uint32 v = Some (word_of_int (trunc_toward_zero v))"
  by (simp add: to_uint32_def representable_def)

lemma box_corners_representable:
  "corners_representable box \<Longrightarrow>
     box_corners box = Some (word_of_int (corner_minX box), word_of_int (corner_maxX box),
                             word_of_int (corner_minY box), word_of_int (corner_maxY box))"
  by (simp add: corners_representable_def box_corners_def corner_minX_def corner_maxX_def
      corner_minY_def corner_maxY_def real_corners_def to_uint32_representable split: prod.splits)

lemma uint_min: "uint (min a b) = min (uint a) (uint b)" for a b :: "32 word"
  by (simp add: min_def word_le_def)

lemma uint_max: "uint (max a b) = max (uint a) (uint b)" for a b :: "32 word"
  by (simp add: max_def word_le_def)

lemma Min_insert_min:
  fixes a c :: "'a :: linorder"
  assumes "finite S"
  shows "Min (insert (min a c) S) = Min (insert a (insert c S))"
  using assms by (cases "S = {}") (simp_all add: min.assoc)

lemma Max_insert_max:
  fixes a c :: "'a :: linorder"
  assumes "finite S"
  shows "Max (insert (max a c) S) = Max (insert a (insert c S))"
  using assms by (cases "S = {}") (simp_all add: max.assoc)

lemma merge_extents_general:
  assumes "\<forall>b \<in> set boxes. corners_representable b"
  shows "\<exists>mnx mxx mny mxy. merge_extents boxes (a, b, c, d) = Some (mnx, mxx, mny, mxy) \<and>
           uint mnx = Min (insert (uint a) (corner_minX ` set boxes)) \<and>
           uint mxx = Max (insert (uint b) (corner_maxX ` set boxes)) \<and>
           uint mny = Min (insert (uint c) (corner_minY ` set boxes)) \<and>
           uint mxy = Max (insert (uint d) (corner_maxY ` set boxes))"
  using assms
proof (induction boxes arbitrary: a b c d)
  case Nil
  then show ?case by simp
next
  case (Cons box boxes)
  have r: "corners_representable box" using Cons.prems by simp
  then have u: "uint (word_of_int (corner_minX box) :: 32 word) = corner_minX box"
    "uint (word_of_int (corner_maxX box) :: 32 word) = corner_maxX box"
    "uint (word_of_int (corner_minY box) :: 32 word) = corner_minY box"
    "uint (word_of_int (corner_maxY box) :: 32 word) = corner_maxY box"
    by (simp_all add: corners_representable_def uint_of_representable)
  from Cons.prems have "\<forall>b \<in> set boxes. corners_representable b" by simp
  from Cons.IH[OF this, of "min a (word_of_int (corner_minX box))" "max b (word_of_int (corner_maxX box))"
      "min c (word_of_int (corner_minY box))" "max d (word_of_int (corner_maxY box))"]
  show ?case
    by (simp add: box_corners_representable[OF r] uint_min uint_max u Min_insert_min Max_insert_max)
qed


lemma trunc_mono: "a \<le> b \<Longrightarrow> trunc_toward_zero a \<le> trunc_toward_zero b"
  unfolding trunc_toward_zero_def
  by (auto intro: floor_mono ceiling_mono order_trans[OF ceiling_mono[of a 0]] simp add: not_le)

lemma corner_order:
  "size_nonneg box \<Longrightarrow> corner_minX box \<le> corner_maxX box \<and> corner_minY box \<le> corner_maxY box"
  by (auto simp add: size_nonneg_def corner_minX_def corner_maxX_def corner_minY_def corner_maxY_def
      real_corners_def split: prod.splits intro!: trunc_mono)

lemma span_word:
  fixes mn mx :: "32 word"
  assumes "uint mn \<le> uint mx"
  shows "of_uint32 (mx - mn) = real_of_int (uint mx - uint mn)"
    and "of_uint32 (mn + (mx - mn) div 2) = real_of_int (uint mn + (uint mx - uint mn) div 2)"
proof -
  have w: "uint (mx - mn) = uint mx - uint mn" using assms uint_sub_lem by blast
  have h: "uint ((mx - mn) div 2) = (uint mx - uint mn) div 2" by (simp add: uint_div w)
  have "uint mn + (uint mx - uint mn) div 2 \<le> uint mx" using assms by simp
  also have "\<dots> < 2 ^ 32" using uint_lt2p[of mx] by simp
  finally have "uint mn + uint ((mx - mn) div 2) < 2 ^ LENGTH(32)" using h by simp
  then have c: "uint (mn + (mx - mn) div 2) = uint mn + (uint mx - uint mn) div 2"
    using uint_add_lem[of mn "(mx - mn) div 2"] h by simp
  show "of_uint32 (mx - mn) = real_of_int (uint mx - uint mn)"
    unfolding of_uint32_def using w by (metis of_int_of_nat_eq of_nat_unat)
  show "of_uint32 (mn + (mx - mn) div 2) = real_of_int (uint mn + (uint mx - uint mn) div 2)"
    unfolding of_uint32_def using c by (metis of_int_of_nat_eq of_nat_unat)
qed

lemma Min_insert_top:
  fixes m :: "'a :: linorder"
  assumes "finite S" "S \<noteq> {}" "\<forall>x \<in> S. x \<le> m"
  shows "Min (insert m S) = Min S"
proof -
  have "Min S \<le> m" using assms by (meson Min_in order_refl)
  then show ?thesis using assms by (simp add: min_absorb2)
qed

lemma Max_insert_bot:
  fixes m :: "'a :: linorder"
  assumes "finite S" "S \<noteq> {}" "\<forall>x \<in> S. m \<le> x"
  shows "Max (insert m S) = Max S"
proof -
  have "m \<le> Max S" using assms by (meson Max_in order_refl)
  then show ?thesis using assms by (simp add: max_absorb2)
qed

lemma MergeBoxes2D_union:
  assumes len: "length boxes \<noteq> 1" and ne: "boxes \<noteq> []"
    and ok: "\<forall>b \<in> set boxes. corners_representable b \<and> size_nonneg b"
  shows "MergeBoxes2D t boxes =
           Some (spanning_box t (label (hd boxes))
                   (Min (corner_minX ` set boxes)) (Max (corner_maxX ` set boxes))
                   (Min (corner_minY ` set boxes)) (Max (corner_maxY ` set boxes)))"
proof -
  from ok have rep: "\<forall>b \<in> set boxes. corners_representable b" by simp
  from merge_extents_general[OF rep, of UINT32_MAX 0 UINT32_MAX 0] obtain mnx mxx mny mxy where
    m: "merge_extents boxes (UINT32_MAX, 0, UINT32_MAX, 0) = Some (mnx, mxx, mny, mxy)"
    and u: "uint mnx = Min (insert (uint UINT32_MAX) (corner_minX ` set boxes))"
      "uint mxx = Max (insert (uint (0::32 word)) (corner_maxX ` set boxes))"
      "uint mny = Min (insert (uint UINT32_MAX) (corner_minY ` set boxes))"
      "uint mxy = Max (insert (uint (0::32 word)) (corner_maxY ` set boxes))"
    by blast
  have fin: "finite (set boxes)" "set boxes \<noteq> {}" using ne by simp_all
  have bnd: "\<And>b. b \<in> set boxes \<Longrightarrow>
      0 \<le> corner_minX b \<and> corner_minX b \<le> 4294967295 \<and> 0 \<le> corner_maxX b \<and>
      0 \<le> corner_minY b \<and> corner_minY b \<le> 4294967295 \<and> 0 \<le> corner_maxY b"
    using rep by (auto simp add: corners_representable_def representable_def)
  have e: "uint mnx = Min (corner_minX ` set boxes)" "uint mxx = Max (corner_maxX ` set boxes)"
    "uint mny = Min (corner_minY ` set boxes)" "uint mxy = Max (corner_maxY ` set boxes)"
  proof -
    have um: "uint UINT32_MAX = 4294967295" by (simp add: UINT32_MAX_def)
    have uz: "uint (0 :: 32 word) = 0" by simp
    show "uint mnx = Min (corner_minX ` set boxes)"
      unfolding u um by (rule Min_insert_top) (use fin bnd in auto)
    show "uint mny = Min (corner_minY ` set boxes)"
      unfolding u um by (rule Min_insert_top) (use fin bnd in auto)
    show "uint mxx = Max (corner_maxX ` set boxes)"
      unfolding u uz by (rule Max_insert_bot) (use fin bnd in auto)
    show "uint mxy = Max (corner_maxY ` set boxes)"
      unfolding u uz by (rule Max_insert_bot) (use fin bnd in auto)
  qed
  obtain b0 where b0: "b0 \<in> set boxes" using ne by (cases boxes) auto
  have ord: "uint mnx \<le> uint mxx" "uint mny \<le> uint mxy"
  proof -
    have "Min (corner_minX ` set boxes) \<le> corner_minX b0" using b0 by simp
    also have "\<dots> \<le> corner_maxX b0" using corner_order ok b0 by blast
    also have "\<dots> \<le> Max (corner_maxX ` set boxes)" using b0 by simp
    finally show "uint mnx \<le> uint mxx" using e by simp
    have "Min (corner_minY ` set boxes) \<le> corner_minY b0" using b0 by simp
    also have "\<dots> \<le> corner_maxY b0" using corner_order ok b0 by blast
    also have "\<dots> \<le> Max (corner_maxY ` set boxes)" using b0 by simp
    finally show "uint mny \<le> uint mxy" using e by simp
  qed
  have "MergeBoxes2D t boxes =
      Some ((new_BoundingBox t (label (hd boxes)))
              \<lparr>box_size := (of_uint32 (mxx - mnx), of_uint32 (mxy - mny), 0),
               center := (of_uint32 (mnx + (mxx - mnx) div 2),
                          of_uint32 (mny + (mxy - mny) div 2), 0)\<rparr>)"
    using len m ne by (auto simp add: MergeBoxes2D_def Let_def split: list.splits)
  also have "\<dots> = Some (spanning_box t (label (hd boxes)) (uint mnx) (uint mxx) (uint mny) (uint mxy))"
    by (simp add: span_word[OF ord(1)] span_word[OF ord(2)] spanning_box_def new_BoundingBox_def)
  finally show ?thesis by (simp add: e)
qed


lemma MergeBoxes2D_single: "MergeBoxes2D t [box] = Some box"
  by (simp add: MergeBoxes2D_def)

lemma trunc_whole: "v \<in> \<int> \<Longrightarrow> real_of_int (trunc_toward_zero v) = v"
  by (auto simp add: trunc_toward_zero_def elim!: Ints_cases)

lemma whole_Min:
  assumes "boxes \<noteq> []" and "\<forall>b \<in> set boxes. real_of_int (f b) = g b"
  shows "real_of_int (Min (f ` set boxes)) = Min (g ` set boxes)"
    and "real_of_int (Max (f ` set boxes)) = Max (g ` set boxes)"
proof -
  have m: "mono real_of_int" by (simp add: mono_def)
  have i: "real_of_int ` f ` set boxes = g ` set boxes" using assms(2) by (auto simp add: image_iff)
  show "real_of_int (Min (f ` set boxes)) = Min (g ` set boxes)"
    using mono_Min_commute[OF m, of "f ` set boxes"] assms(1) i by simp
  show "real_of_int (Max (f ` set boxes)) = Max (g ` set boxes)"
    using mono_Max_commute[OF m, of "f ` set boxes"] assms(1) i by simp
qed

lemma to_uint32_cases:
  "- 1 < v \<Longrightarrow> v < 0 \<Longrightarrow> to_uint32 v = Some 0"
  "0 \<le> v \<Longrightarrow> v < 2 ^ 32 \<Longrightarrow> to_uint32 v = Some (word_of_int \<lfloor>v\<rfloor>)"
  "- (2 ^ 63) \<le> v \<Longrightarrow> v \<le> - 1 \<Longrightarrow> to_uint32 v = Some (word_of_int \<lceil>v\<rceil>)"
proof -
  show "- 1 < v \<Longrightarrow> v < 0 \<Longrightarrow> to_uint32 v = Some 0"
    by (simp add: to_uint32_def trunc_toward_zero_def ceiling_eq_iff[of v 0, THEN iffD2])
  show "to_uint32 v = Some (word_of_int \<lfloor>v\<rfloor>)" if "0 \<le> v" "v < 2 ^ 32"
  proof -
    have "0 \<le> \<lfloor>v\<rfloor>" "\<lfloor>v\<rfloor> < 2 ^ 32" using that by (simp_all add: floor_less_iff)
    then have "- (2 ^ 63) \<le> \<lfloor>v\<rfloor>" "\<lfloor>v\<rfloor> < 2 ^ 63" by simp_all
    then show ?thesis using that by (simp add: to_uint32_def trunc_toward_zero_def)
  qed
  show "to_uint32 v = Some (word_of_int \<lceil>v\<rceil>)" if "- (2 ^ 63) \<le> v" "v \<le> - 1"
  proof -
    have "- (2 ^ 63) \<le> \<lceil>v\<rceil>" using that(1) by (simp add: le_ceiling_iff)
    moreover have "\<lceil>v\<rceil> \<le> - 1" using that(2) by (simp add: ceiling_le_iff)
    ultimately show ?thesis using that by (simp add: to_uint32_def trunc_toward_zero_def)
  qed
qed

lemma uint_wrap: "uint (word_of_int k :: 32 word) = k mod 2 ^ 32"
  by (simp add: uint_word_of_int take_bit_eq_mod)

lemma box_corners_convertible:
  "corners_convertible box \<Longrightarrow>
     box_corners box = Some (boxMinX box, boxMaxX box, boxMinY box, boxMaxY box)"
  by (simp add: corners_convertible_def convertible_def box_corners_def to_uint32_def
      boxMinX_def boxMaxX_def boxMinY_def boxMaxY_def
      corner_minX_def corner_maxX_def corner_minY_def corner_maxY_def real_corners_def
      split: prod.splits)

lemma merge_extents_words:
  assumes "\<forall>b \<in> set boxes. corners_convertible b"
  shows "merge_extents boxes (a, b, c, d) =
           Some (Min (insert a (boxMinX ` set boxes)), Max (insert b (boxMaxX ` set boxes)),
                 Min (insert c (boxMinY ` set boxes)), Max (insert d (boxMaxY ` set boxes)))"
  using assms
proof (induction boxes arbitrary: a b c d)
  case Nil
  then show ?case by simp
next
  case (Cons box boxes)
  have r: "corners_convertible box" using Cons.prems by simp
  from Cons.prems have "\<forall>b \<in> set boxes. corners_convertible b" by simp
  from Cons.IH[OF this, of "min a (boxMinX box)" "max b (boxMaxX box)"
      "min c (boxMinY box)" "max d (boxMaxY box)"]
  show ?case
    by (simp add: box_corners_convertible[OF r] Min_insert_min Max_insert_max)
qed

lemma word_top_bot: "(w :: 32 word) \<le> UINT32_MAX" "0 \<le> w"
  by (simp_all add: UINT32_MAX_def word_le_def) (use uint_lt2p[of w] in simp)

lemma MergeBoxes2D_words:
  assumes len: "2 \<le> length boxes" and ok: "\<forall>b \<in> set boxes. corners_convertible b"
  shows "MergeBoxes2D t boxes =
     (let minX = Min (boxMinX ` set boxes); maxX = Max (boxMaxX ` set boxes);
          minY = Min (boxMinY ` set boxes); maxY = Max (boxMaxY ` set boxes);
          width = maxX - minX; height = maxY - minY
      in Some ((new_BoundingBox t (label (hd boxes)))
           \<lparr>box_size := (of_uint32 width, of_uint32 height, 0),
            center := (of_uint32 (minX + width div 2), of_uint32 (minY + height div 2), 0)\<rparr>))"
proof -
  have ne: "boxes \<noteq> []" and n1: "length boxes \<noteq> 1" using len by auto
  have fin: "finite (f ` set boxes)" "f ` set boxes \<noteq> {}" for f :: "BoundingBox \<Rightarrow> 32 word"
    using ne by simp_all
  have e: "Min (insert UINT32_MAX (f ` set boxes)) = Min (f ` set boxes)"
    "Max (insert 0 (f ` set boxes)) = Max (f ` set boxes)" for f :: "BoundingBox \<Rightarrow> 32 word"
  proof -
    show "Min (insert UINT32_MAX (f ` set boxes)) = Min (f ` set boxes)"
      by (rule Min_insert_top[OF fin]) (simp add: word_top_bot)
    show "Max (insert 0 (f ` set boxes)) = Max (f ` set boxes)"
      by (rule Max_insert_bot[OF fin]) (simp add: word_top_bot)
  qed
  show ?thesis
    using n1 ne merge_extents_words[OF ok, of UINT32_MAX 0 UINT32_MAX 0]
    by (auto simp add: MergeBoxes2D_def Let_def e split: list.splits)
qed

lemma corners_representable_words:
  assumes "corners_representable box"
  shows "corners_convertible box"
    and "uint (boxMinX box) = corner_minX box" "uint (boxMaxX box) = corner_maxX box"
    and "uint (boxMinY box) = corner_minY box" "uint (boxMaxY box) = corner_maxY box"
proof -
  have "representable k \<Longrightarrow> - (2 ^ 63) \<le> k \<and> k < 2 ^ 63" for k
    by (simp add: representable_def)
  then show "corners_convertible box"
    using assms unfolding corners_representable_def corners_convertible_def convertible_def
      corner_minX_def corner_maxX_def corner_minY_def corner_maxY_def by blast
  show "uint (boxMinX box) = corner_minX box" "uint (boxMaxX box) = corner_maxX box"
    "uint (boxMinY box) = corner_minY box" "uint (boxMaxY box) = corner_maxY box"
    using assms
    by (simp_all add: corners_representable_def boxMinX_def boxMaxX_def boxMinY_def boxMaxY_def
        uint_of_representable)
qed

lemma merge_scenario_B:
  "MergeBoxes2D BBT_VISIBLEBOX2D [box2d 10 10 4 4 l, box2d 20 20 4 4 l'] =
     Some ((new_BoundingBox BBT_VISIBLEBOX2D l)\<lparr>center := (15, 15, 0), box_size := (14, 14, 0)\<rparr>)"
  by (simp add: MergeBoxes2D_def box2d_def box_corners_def to_uint32_def trunc_toward_zero_def
      new_BoundingBox_def UINT32_MAX_def of_uint32_def)

lemma merge_odd_width:
  "merge_extents [box2d 12 12 5 5 l, box2d 20 20 4 4 l'] (UINT32_MAX, 0, UINT32_MAX, 0) = Some (9, 22, 9, 22)"
  "MergeBoxes2D BBT_VISIBLEBOX2D [box2d 12 12 5 5 l, box2d 20 20 4 4 l'] =
     Some ((new_BoundingBox BBT_VISIBLEBOX2D l)\<lparr>center := (15, 15, 0), box_size := (13, 13, 0)\<rparr>)"
  "real_corners (box2d 12 12 5 5 l) = (19 / 2, 29 / 2, 19 / 2, 29 / 2)"
  "real_corners (box2d 20 20 4 4 l') = (18, 22, 18, 22)"
  by (simp_all add: MergeBoxes2D_def box2d_def box_corners_def to_uint32_def trunc_toward_zero_def
      new_BoundingBox_def UINT32_MAX_def of_uint32_def real_corners_def)

lemma ceiling_minus_half: "\<lceil>- (1 / 2) :: real\<rceil> = 0"
  by (rule ceiling_unique) simp_all

lemma merge_negative_half:
  "box_corners (box2d 2 2 5 5 l) = Some (0, 4, 0, 4)"
  "MergeBoxes2D BBT_VISIBLEBOX2D [box2d 2 2 5 5 l, box2d 20 20 4 4 l'] =
     Some ((new_BoundingBox BBT_VISIBLEBOX2D l)\<lparr>center := (11, 11, 0), box_size := (22, 22, 0)\<rparr>)"
  "real_corners (box2d 2 2 5 5 l) = (- 1 / 2, 9 / 2, - 1 / 2, 9 / 2)"
  by (simp_all add: MergeBoxes2D_def box2d_def box_corners_def to_uint32_def trunc_toward_zero_def
      new_BoundingBox_def UINT32_MAX_def of_uint32_def real_corners_def ceiling_minus_half)


text \<open>
  Claim C3, as the code has it. For a group of two or more boxes with non-negative sizes
  whose converted corners \<open>uint32_t\<close> can hold, \<open>MergeBoxes2D\<close> returns the box that spans the
  componentwise minimum of the near corners and the componentwise maximum of the far
  corners, each corner being \<open>center \<plusminus> size / 2\<close> converted to \<open>uint32_t\<close> (truncated); its size
  is \<open>max - min\<close>, its center \<open>min + (max - min) div 2\<close>, its label the label of the first
  box. When every corner is a whole number these extrema are the extrema of the real
  corners. The boxes \<open>(10,10)\<close>, \<open>(4,4)\<close> and \<open>(20,20)\<close>, \<open>(4,4)\<close> merge into center \<open>(15,15)\<close>,
  size \<open>(14,14)\<close>.
\<close>
theorem MergeBoxes2D_union_of_converted_corners:
  "(2 \<le> length boxes \<and> (\<forall>b \<in> set boxes. corners_representable b \<and> size_nonneg b) \<longrightarrow>
      MergeBoxes2D t boxes =
        Some (spanning_box t (label (hd boxes))
                (Min (corner_minX ` set boxes)) (Max (corner_maxX ` set boxes))
                (Min (corner_minY ` set boxes)) (Max (corner_maxY ` set boxes)))) \<and>
   (boxes \<noteq> [] \<and> (\<forall>b \<in> set boxes. whole_corners b) \<longrightarrow>
      real_of_int (Min (corner_minX ` set boxes)) = Min ((\<lambda>b. fst (real_corners b)) ` set boxes) \<and>
      real_of_int (Max (corner_maxX ` set boxes)) = Max ((\<lambda>b. fst (snd (real_corners b))) ` set boxes) \<and>
      real_of_int (Min (corner_minY ` set boxes)) =
        Min ((\<lambda>b. fst (snd (snd (real_corners b)))) ` set boxes) \<and>
      real_of_int (Max (corner_maxY ` set boxes)) =
        Max ((\<lambda>b. snd (snd (snd (real_corners b)))) ` set boxes)) \<and>
   MergeBoxes2D BBT_VISIBLEBOX2D [box2d 10 10 4 4 l, box2d 20 20 4 4 l'] =
     Some ((new_BoundingBox BBT_VISIBLEBOX2D l)\<lparr>center := (15, 15, 0), box_size := (14, 14, 0)\<rparr>)"
proof (intro conjI impI)
  assume a: "2 \<le> length boxes \<and> (\<forall>b \<in> set boxes. corners_representable b \<and> size_nonneg b)"
  then have "length boxes \<noteq> 1" "boxes \<noteq> []" by auto
  from MergeBoxes2D_union[OF this] a
  show "MergeBoxes2D t boxes =
        Some (spanning_box t (label (hd boxes))
                (Min (corner_minX ` set boxes)) (Max (corner_maxX ` set boxes))
                (Min (corner_minY ` set boxes)) (Max (corner_maxY ` set boxes)))"
    by blast
next
  assume a: "boxes \<noteq> [] \<and> (\<forall>b \<in> set boxes. whole_corners b)"
  then have ne: "boxes \<noteq> []" by simp
  have w: "\<forall>b \<in> set boxes. real_of_int (corner_minX b) = fst (real_corners b)"
    "\<forall>b \<in> set boxes. real_of_int (corner_maxX b) = fst (snd (real_corners b))"
    "\<forall>b \<in> set boxes. real_of_int (corner_minY b) = fst (snd (snd (real_corners b)))"
    "\<forall>b \<in> set boxes. real_of_int (corner_maxY b) = snd (snd (snd (real_corners b)))"
    using a by (auto simp add: whole_corners_def corner_minX_def corner_maxX_def corner_minY_def
        corner_maxY_def trunc_whole split: prod.splits)
  show "real_of_int (Min (corner_minX ` set boxes)) = Min ((\<lambda>b. fst (real_corners b)) ` set boxes)"
    by (rule whole_Min(1)[OF ne w(1)])
  show "real_of_int (Max (corner_maxX ` set boxes)) = Max ((\<lambda>b. fst (snd (real_corners b))) ` set boxes)"
    by (rule whole_Min(2)[OF ne w(2)])
  show "real_of_int (Min (corner_minY ` set boxes)) =
        Min ((\<lambda>b. fst (snd (snd (real_corners b)))) ` set boxes)"
    by (rule whole_Min(1)[OF ne w(3)])
  show "real_of_int (Max (corner_maxY ` set boxes)) =
        Max ((\<lambda>b. snd (snd (snd (real_corners b)))) ` set boxes)"
    by (rule whole_Min(2)[OF ne w(4)])
next
  show "MergeBoxes2D BBT_VISIBLEBOX2D [box2d 10 10 4 4 l, box2d 20 20 4 4 l'] =
     Some ((new_BoundingBox BBT_VISIBLEBOX2D l)\<lparr>center := (15, 15, 0), box_size := (14, 14, 0)\<rparr>)"
    by (rule merge_scenario_B)
qed

lemma scenario_B_facts:
  "corners_representable (box2d 10 10 4 4 1)" "corners_representable (box2d 20 20 4 4 1)"
  "size_nonneg (box2d 10 10 4 4 1)" "size_nonneg (box2d 20 20 4 4 1)"
  "whole_corners (box2d 10 10 4 4 1)" "whole_corners (box2d 20 20 4 4 1)"
  "corner_minX (box2d 10 10 4 4 1) = 8" "corner_maxX (box2d 10 10 4 4 1) = 12"
  "corner_minY (box2d 10 10 4 4 1) = 8" "corner_maxY (box2d 10 10 4 4 1) = 12"
  "corner_minX (box2d 20 20 4 4 1) = 18" "corner_maxX (box2d 20 20 4 4 1) = 22"
  "corner_minY (box2d 20 20 4 4 1) = 18" "corner_maxY (box2d 20 20 4 4 1) = 22"
  by (simp_all add: corners_representable_def representable_def size_nonneg_def whole_corners_def
      corner_minX_def corner_maxX_def corner_minY_def corner_maxY_def real_corners_def box2d_def
      new_BoundingBox_def trunc_toward_zero_def)

theorem MergeBoxes2D_union_of_converted_corners_witness:
  "2 \<le> length [box2d 10 10 4 4 1, box2d 20 20 4 4 1] \<and>
   corners_representable (box2d 10 10 4 4 1) \<and> corners_representable (box2d 20 20 4 4 1) \<and>
   size_nonneg (box2d 10 10 4 4 1) \<and> size_nonneg (box2d 20 20 4 4 1) \<and>
   whole_corners (box2d 10 10 4 4 1) \<and> whole_corners (box2d 20 20 4 4 1) \<and>
   MergeBoxes2D BBT_VISIBLEBOX2D [box2d 10 10 4 4 1, box2d 20 20 4 4 1] =
     Some (spanning_box BBT_VISIBLEBOX2D 1 8 22 8 22)"
  using MergeBoxes2D_union_of_converted_corners[of "[box2d 10 10 4 4 1, box2d 20 20 4 4 1]"
      BBT_VISIBLEBOX2D 1 1]
    scenario_B_facts
  by (simp add: box2d_def new_BoundingBox_def)

text \<open>
  Without whole-number corners the merged minimum is not the minimum of the corners: the
  boxes of pixel extents \<open>10..15\<close> (center 12, size 5) and \<open>18..22\<close> have the real minimum
  \<open>19/2\<close>, the loop computes 9, and the merged box has size 13 around center 15.
\<close>
theorem MergeBoxes2D_fractional_corner_counterexample:
  "merge_extents [box2d 12 12 5 5 1, box2d 20 20 4 4 1] (UINT32_MAX, 0, UINT32_MAX, 0) =
     Some (9, 22, 9, 22) \<and>
   Min {fst (real_corners (box2d 12 12 5 5 1)), fst (real_corners (box2d 20 20 4 4 1))} = 19 / 2 \<and>
   of_uint32 9 \<noteq> Min {fst (real_corners (box2d 12 12 5 5 1)), fst (real_corners (box2d 20 20 4 4 1))} \<and>
   MergeBoxes2D BBT_VISIBLEBOX2D [box2d 12 12 5 5 1, box2d 20 20 4 4 1] =
     Some ((new_BoundingBox BBT_VISIBLEBOX2D 1)\<lparr>center := (15, 15, 0), box_size := (13, 13, 0)\<rparr>)"
  by (simp add: merge_odd_width of_uint32_def del: merge_extents.simps)

text \<open>
  Claim C4. Merging a group of exactly one box returns that box, every field unchanged;
  and merging the singleton group of a merged result gives the merged result again, for
  every group (a group whose merge is undefined stays undefined).
\<close>
theorem MergeBoxes2D_idempotent:
  "MergeBoxes2D t [box] = Some box \<and>
   (MergeBoxes2D t boxes = Some merged \<longrightarrow> MergeBoxes2D t [merged] = Some merged) \<and>
   Option.bind (MergeBoxes2D t boxes) (\<lambda>merged. MergeBoxes2D t [merged]) = MergeBoxes2D t boxes"
  by (cases "MergeBoxes2D t boxes") (simp_all add: MergeBoxes2D_single)

theorem MergeBoxes2D_idempotent_witness:
  "MergeBoxes2D BBT_VISIBLEBOX2D [box2d 10 10 4 4 1, box2d 20 20 4 4 1] =
     Some ((new_BoundingBox BBT_VISIBLEBOX2D 1)\<lparr>center := (15, 15, 0), box_size := (14, 14, 0)\<rparr>) \<and>
   MergeBoxes2D BBT_VISIBLEBOX2D
     [(new_BoundingBox BBT_VISIBLEBOX2D 1)\<lparr>center := (15, 15, 0), box_size := (14, 14, 0)\<rparr>] =
     Some ((new_BoundingBox BBT_VISIBLEBOX2D 1)\<lparr>center := (15, 15, 0), box_size := (14, 14, 0)\<rparr>)"
  using MergeBoxes2D_idempotent[of BBT_VISIBLEBOX2D _ "[box2d 10 10 4 4 1, box2d 20 20 4 4 1]"
      "(new_BoundingBox BBT_VISIBLEBOX2D 1)\<lparr>center := (15, 15, 0), box_size := (14, 14, 0)\<rparr>"]
    merge_scenario_B[of 1 1]
  by simp

lemma ceiling_minus_one: "\<lceil>- 1 :: real\<rceil> = - 1"
  using ceiling_of_int[of "- 1", where ?'a = real] by simp

lemma merge_wrapped_corner:
  "box_corners (box2d 1 1 4 4 l) = Some (4294967295, 3, 4294967295, 3)"
  "MergeBoxes2D BBT_VISIBLEBOX2D [box2d 1 1 4 4 l, box2d 20 20 4 4 l'] =
     Some ((new_BoundingBox BBT_VISIBLEBOX2D l)\<lparr>center := (20, 20, 0), box_size := (4, 4, 0)\<rparr>)"
  "real_corners (box2d 1 1 4 4 l) = (- 1, 3, - 1, 3)"
  by (simp_all add: MergeBoxes2D_def box2d_def box_corners_def to_uint32_def trunc_toward_zero_def
      new_BoundingBox_def UINT32_MAX_def of_uint32_def real_corners_def ceiling_minus_one)

text \<open>
  Claim C10, as the code has it. Each corner of \<open>MergeBoxes2D\<close> is the \<open>uint32_t\<close> conversion
  of \<open>center \<plusminus> size / 2\<close>. The conversion truncates towards zero and keeps the result
  modulo \<open>2^32\<close>: a corner in \<open>[0, 2^32)\<close> becomes its floor, a negative corner at or below
  \<open>-1\<close> wraps, and a negative corner above \<open>-1\<close> becomes 0 (it does not wrap). For a group
  of two or more boxes the result is computed over the converted corners: its extents are
  their minima and maxima as \<open>uint32_t\<close> values, its size is \<open>max - min\<close> and its center
  \<open>min + (max - min) div 2\<close>, rounded down, in \<open>uint32_t\<close> arithmetic. When no corner is
  negative the converted corners are the truncated corners of the boxes.
\<close>
theorem MergeBoxes2D_uint32_corners:
  "box_corners box =
     (case real_corners box of (x_lo, x_hi, y_lo, y_hi) \<Rightarrow>
        (case (to_uint32 x_lo, to_uint32 x_hi, to_uint32 y_lo, to_uint32 y_hi) of
           (Some a, Some b, Some c, Some d) \<Rightarrow> Some (a, b, c, d)
         | _ \<Rightarrow> None)) \<and>
   (- 1 < v \<and> v < 0 \<longrightarrow> to_uint32 v = Some 0) \<and>
   (0 \<le> v \<and> v < 2 ^ 32 \<longrightarrow> to_uint32 v = Some (word_of_int \<lfloor>v\<rfloor>)) \<and>
   (- (2 ^ 63) \<le> v \<and> v \<le> - 1 \<longrightarrow>
      to_uint32 v = Some (word_of_int \<lceil>v\<rceil>) \<and>
      uint (word_of_int \<lceil>v\<rceil> :: 32 word) = \<lceil>v\<rceil> mod 2 ^ 32) \<and>
   (2 \<le> length boxes \<and> (\<forall>b \<in> set boxes. corners_convertible b) \<longrightarrow>
      MergeBoxes2D t boxes =
        (let minX = Min (boxMinX ` set boxes); maxX = Max (boxMaxX ` set boxes);
             minY = Min (boxMinY ` set boxes); maxY = Max (boxMaxY ` set boxes);
             width = maxX - minX; height = maxY - minY
         in Some ((new_BoundingBox t (label (hd boxes)))
              \<lparr>box_size := (of_uint32 width, of_uint32 height, 0),
               center := (of_uint32 (minX + width div 2), of_uint32 (minY + height div 2), 0)\<rparr>))) \<and>
   (corners_representable box \<longrightarrow>
      corners_convertible box \<and>
      uint (boxMinX box) = corner_minX box \<and> uint (boxMaxX box) = corner_maxX box \<and>
      uint (boxMinY box) = corner_minY box \<and> uint (boxMaxY box) = corner_maxY box)"
proof (intro conjI impI)
  show "box_corners box =
     (case real_corners box of (x_lo, x_hi, y_lo, y_hi) \<Rightarrow>
        (case (to_uint32 x_lo, to_uint32 x_hi, to_uint32 y_lo, to_uint32 y_hi) of
           (Some a, Some b, Some c, Some d) \<Rightarrow> Some (a, b, c, d)
         | _ \<Rightarrow> None))"
    by (simp add: box_corners_def real_corners_def split: prod.splits option.splits)
  show "- 1 < v \<and> v < 0 \<Longrightarrow> to_uint32 v = Some 0" by (simp add: to_uint32_cases(1))
  show "0 \<le> v \<and> v < 2 ^ 32 \<Longrightarrow> to_uint32 v = Some (word_of_int \<lfloor>v\<rfloor>)"
    by (simp add: to_uint32_cases(2))
  show "- (2 ^ 63) \<le> v \<and> v \<le> - 1 \<Longrightarrow> to_uint32 v = Some (word_of_int \<lceil>v\<rceil>)"
    by (simp add: to_uint32_cases(3))
  show "uint (word_of_int \<lceil>v\<rceil> :: 32 word) = \<lceil>v\<rceil> mod 2 ^ 32" by (rule uint_wrap)
  show "MergeBoxes2D t boxes =
        (let minX = Min (boxMinX ` set boxes); maxX = Max (boxMaxX ` set boxes);
             minY = Min (boxMinY ` set boxes); maxY = Max (boxMaxY ` set boxes);
             width = maxX - minX; height = maxY - minY
         in Some ((new_BoundingBox t (label (hd boxes)))
              \<lparr>box_size := (of_uint32 width, of_uint32 height, 0),
               center := (of_uint32 (minX + width div 2), of_uint32 (minY + height div 2), 0)\<rparr>))"
    if "2 \<le> length boxes \<and> (\<forall>b \<in> set boxes. corners_convertible b)"
    using that MergeBoxes2D_words[of boxes t] by blast
  assume r: "corners_representable box"
  show "corners_convertible box" "uint (boxMinX box) = corner_minX box"
    "uint (boxMaxX box) = corner_maxX box" "uint (boxMinY box) = corner_minY box"
    "uint (boxMaxY box) = corner_maxY box"
    by (rule corners_representable_words[OF r])+
qed

lemma negative_corner_facts:
  "corners_convertible (box2d 1 1 4 4 1)" "corners_convertible (box2d 20 20 4 4 1)"
  "boxMinX (box2d 1 1 4 4 1) = 4294967295" "boxMaxX (box2d 1 1 4 4 1) = 3"
  "boxMinY (box2d 1 1 4 4 1) = 4294967295" "boxMaxY (box2d 1 1 4 4 1) = 3"
  "boxMinX (box2d 20 20 4 4 1) = 18" "boxMaxX (box2d 20 20 4 4 1) = 22"
  "boxMinY (box2d 20 20 4 4 1) = 18" "boxMaxY (box2d 20 20 4 4 1) = 22"
  by (simp_all add: corners_convertible_def convertible_def boxMinX_def boxMaxX_def boxMinY_def
      boxMaxY_def corner_minX_def corner_maxX_def corner_minY_def corner_maxY_def real_corners_def
      box2d_def new_BoundingBox_def trunc_toward_zero_def ceiling_minus_one)

text \<open>
  The conversion at \<open>-1/2\<close>, \<open>19/2\<close> and \<open>-1\<close>, and the merge of the box of center 1 and
  size 4, whose corner \<open>-1\<close> wraps to \<open>2^32 - 1\<close>, with the box \<open>18..22\<close>: the wrapped corner
  is not the minimum, and the result spans \<open>18..22\<close> only.
\<close>
theorem MergeBoxes2D_uint32_corners_witness:
  "(- 1 :: real) < - (1 / 2) \<and> - (1 / 2) < (0 :: real) \<and> to_uint32 (- (1 / 2)) = Some 0 \<and>
   to_uint32 (19 / 2) = Some 9 \<and>
   to_uint32 (- 1) = Some 4294967295 \<and> uint (4294967295 :: 32 word) = (- 1) mod 2 ^ 32 \<and>
   2 \<le> length [box2d 1 1 4 4 1, box2d 20 20 4 4 1] \<and>
   corners_convertible (box2d 1 1 4 4 1) \<and> corners_convertible (box2d 20 20 4 4 1) \<and>
   boxMinX (box2d 1 1 4 4 1) = 4294967295 \<and>
   MergeBoxes2D BBT_VISIBLEBOX2D [box2d 1 1 4 4 1, box2d 20 20 4 4 1] =
     Some ((new_BoundingBox BBT_VISIBLEBOX2D 1)\<lparr>center := (20, 20, 0), box_size := (4, 4, 0)\<rparr>) \<and>
   corners_representable (box2d 20 20 4 4 1) \<and> uint (boxMinX (box2d 20 20 4 4 1)) = 18"
  using MergeBoxes2D_uint32_corners[of _ "- (1 / 2)" "[box2d 1 1 4 4 1, box2d 20 20 4 4 1]" BBT_VISIBLEBOX2D]
    MergeBoxes2D_uint32_corners[of "box2d 20 20 4 4 1" "19 / 2" "[]" BBT_VISIBLEBOX2D]
    MergeBoxes2D_uint32_corners[of _ "- 1" "[]" BBT_VISIBLEBOX2D]
    negative_corner_facts scenario_B_facts
  by (simp add: box2d_def new_BoundingBox_def of_uint32_def ceiling_minus_one)

text \<open>
  A box of center 2 and size 5 has its center below half its size and the real corner
  \<open>-1/2\<close>; the corner the loop computes is 0, and the merge with the box \<open>18..22\<close> spans
  \<open>0..22\<close>: nothing wraps modulo \<open>2^32\<close>.
\<close>
theorem MergeBoxes2D_negative_corner_counterexample:
  "fst (center (box2d 2 2 5 5 1)) < fst (box_size (box2d 2 2 5 5 1)) / 2 \<and>
   fst (real_corners (box2d 2 2 5 5 1)) = - 1 / 2 \<and>
   box_corners (box2d 2 2 5 5 1) = Some (0, 4, 0, 4) \<and>
   MergeBoxes2D BBT_VISIBLEBOX2D [box2d 2 2 5 5 1, box2d 20 20 4 4 1] =
     Some ((new_BoundingBox BBT_VISIBLEBOX2D 1)\<lparr>center := (11, 11, 0), box_size := (22, 22, 0)\<rparr>)"
  by (simp add: merge_negative_half del: merge_extents.simps) (simp add: box2d_def)


subsection \<open>The rasterizer\<close>

lemma unat_row0_index:
  assumes "0 \<le> x" "3 * nat x + k < 2 ^ 32"
  shows "unat (word_of_int x * 3 + of_nat k :: 32 word) = 3 * nat x + k"
proof -
  obtain n where n: "x = int n" using assms(1) by (metis nat_0_le)
  have "unat (of_nat n * 3 + of_nat k :: 32 word) = (n * 3 + k) mod 2 ^ 32"
    by (simp add: unat_word_ariths unat_of_nat mod_simps)
  also have "\<dots> = 3 * n + k" using assms(2) n by (simp add: mult.commute)
  finally show ?thesis by (simp add: n)
qed

lemma plot_row0:
  assumes "0 \<le> x" "3 * nat x + 2 < length data" "3 * nat x + 2 < 2 ^ 32"
  shows "plot data w x 0 =
           Some (data[3 * nat x := 0, 3 * nat x + 1 := 255, 3 * nat x + 2 := 0])"
proof -
  have b: "3 * nat x + 0 < 2 ^ 32" "3 * nat x + 1 < 2 ^ 32" "3 * nat x + 2 < 2 ^ 32"
    using assms by simp_all
  have i: "unat (word_of_int x * 3 :: 32 word) = 3 * nat x"
    "unat (word_of_int x * 3 + 1 :: 32 word) = 3 * nat x + 1"
    "unat (word_of_int x * 3 + 2 :: 32 word) = 3 * nat x + 2"
    using unat_row0_index[OF assms(1) b(1)] unat_row0_index[OF assms(1) b(2)]
      unat_row0_index[OF assms(1) b(3)] by simp_all
  show ?thesis using assms(2) by (simp add: plot_def write_byte_def Let_def i)
qed

lemma draw_low_row0:
  assumes "0 \<le> x" "x \<le> x1" "3 * nat x1 \<le> length data" "3 * nat x1 \<le> 2 ^ 32" "D \<le> 0"
  shows "\<exists>data'. draw_low data w dx 0 yi x1 x 0 D = Some data' \<and> length data' = length data \<and>
           (\<forall>i < length data. data' ! i =
              (if 3 * nat x \<le> i \<and> i < 3 * nat x1 then outline_colour i else data ! i))"
  using assms
proof (induction "nat (x1 - x)" arbitrary: x data)
  case 0
  then have "x = x1" by simp
  then show ?case by (subst draw_low.simps) auto
next
  case (Suc n)
  then have lt: "x < x1" by linarith
  let ?d = "data[3 * nat x := 0, 3 * nat x + 1 := 255, 3 * nat x + 2 := 0]"
  have in_range: "3 * nat x + 2 < length data" using lt Suc.prems by linarith
  have p: "plot data w x 0 = Some ?d"
    by (rule plot_row0[OF Suc.prems(1) in_range]) (use lt Suc.prems in linarith)
  have n: "n = nat (x1 - (x + 1))" using Suc.hyps(2) by linarith
  have "\<exists>data'. draw_low ?d w dx 0 yi x1 (x + 1) 0 D = Some data' \<and> length data' = length ?d \<and>
           (\<forall>i < length ?d. data' ! i =
              (if 3 * nat (x + 1) \<le> i \<and> i < 3 * nat x1 then outline_colour i else ?d ! i))"
    by (rule Suc.hyps(1)[OF n]) (use Suc.prems lt in simp_all)
  then obtain data' where d: "draw_low ?d w dx 0 yi x1 (x + 1) 0 D = Some data'"
    "length data' = length data"
    "\<forall>i < length data. data' ! i =
              (if 3 * nat (x + 1) \<le> i \<and> i < 3 * nat x1 then outline_colour i else ?d ! i)"
    by auto
  have run: "draw_low data w dx 0 yi x1 x 0 D = Some data'"
    using lt p d(1) Suc.prems(5) by (subst draw_low.simps) simp
  have nx: "3 * nat (x + 1) = 3 * nat x + 3" using Suc.prems(1) by (simp add: nat_add_distrib)
  have "\<forall>i < length data. data' ! i =
              (if 3 * nat x \<le> i \<and> i < 3 * nat x1 then outline_colour i else data ! i)"
  proof (intro allI impI)
    fix i assume i: "i < length data"
    have up: "3 * nat x + 3 \<le> 3 * nat x1" using lt Suc.prems(1) by linarith
    have e: "data' ! i = (if 3 * nat x + 3 \<le> i \<and> i < 3 * nat x1 then outline_colour i else ?d ! i)"
      using d(3) i nx by simp
    consider "i = 3 * nat x" | "i = 3 * nat x + 1" | "i = 3 * nat x + 2"
      | "i < 3 * nat x" | "3 * nat x + 3 \<le> i" by linarith
    then show "data' ! i = (if 3 * nat x \<le> i \<and> i < 3 * nat x1 then outline_colour i else data ! i)"
    proof cases
      case 1
      have "?d ! i = 0" using 1 in_range by simp
      moreover have "outline_colour i = 0" using 1 by (simp add: outline_colour_def)
      ultimately show ?thesis using e 1 up lt Suc.prems(1) by simp
    next
      case 2
      have "?d ! i = 255" using 2 in_range by simp
      moreover have "outline_colour i = 255" using 2 by (simp add: outline_colour_def)
      ultimately show ?thesis using e 2 up lt Suc.prems(1) by simp
    next
      case 3
      have "?d ! i = 0" using 3 in_range by simp
      moreover have "(3 * nat x + 2) mod 3 = 2" by presburger
      then have "outline_colour i = 0" using 3 by (simp add: outline_colour_def)
      ultimately show ?thesis using e 3 up lt Suc.prems(1) by simp
    next
      case 4
      have "?d ! i = data ! i" using 4 by simp
      then show ?thesis using e 4 by simp
    next
      case 5
      have "?d ! i = data ! i" using 5 by simp
      then show ?thesis using e 5 by simp
    qed
  qed
  then show ?case using run d(2) by blast
qed


lemma DrawLine_row0:
  assumes "600 \<le> length data"
  shows "\<exists>data'. DrawLine data 200 (0, 0) (199, 0) = Some data' \<and> length data' = length data \<and>
           (\<forall>i < length data. data' ! i = (if i < 597 then outline_colour i else data ! i))"
proof -
  have "\<exists>data'. draw_low data 200 199 0 1 199 0 0 (- 199) = Some data' \<and> length data' = length data \<and>
           (\<forall>i < length data. data' ! i =
              (if 3 * nat 0 \<le> i \<and> i < 3 * nat 199 then outline_colour i else data ! i))"
    by (rule draw_low_row0) (use assms in simp_all)
  then show ?thesis by (simp add: DrawLine_def)
qed

lemma ToScreen_scenario_D:
  "ToScreen 200 height (- 1, 1) = Some (0, 0)" "ToScreen 200 height (1, 1) = Some (199, 0)"
  by (simp_all add: ToScreen_def to_uint32_def to_int32_def of_uint32_def trunc_toward_zero_def)

lemma length_green: "length (concat (replicate n [0, 255, 0 :: 8 word])) = 3 * n"
  by (induction n) simp_all

lemma nth_green: "i < 3 * n \<Longrightarrow> concat (replicate n [0, 255, 0 :: 8 word]) ! i = outline_colour i"
proof (induction n arbitrary: i)
  case 0
  then show ?case by simp
next
  case (Suc n)
  show ?case
  proof (cases "i < 3")
    case True
    then consider "i = 0" | "i = 1" | "i = 2" by linarith
    then show ?thesis by cases (simp_all add: outline_colour_def)
  next
    case False
    then have "i - 3 < 3 * n" using Suc.prems by simp
    from Suc.IH[OF this] have "concat (replicate n [0, 255, 0 :: 8 word]) ! (i - 3) = outline_colour (i - 3)" .
    moreover have "(i - 3) mod 3 = i mod 3" using False by (simp add: mod_if not_less)
    moreover have "concat (replicate (Suc n) [0, 255, 0 :: 8 word]) ! i =
        concat (replicate n [0, 255, 0]) ! (i - 3)"
      using False by (simp add: nth_append numeral_3_eq_3)
    ultimately show ?thesis by (simp only: outline_colour_def)
  qed
qed

lemma DrawLine_example:
  "DrawLine (replicate 600 7) 200 (0, 0) (199, 0) = Some (concat (replicate 199 [0, 255, 0]) @ [7, 7, 7])"
proof -
  from DrawLine_row0[of "replicate 600 7"] obtain data' where
    d: "DrawLine (replicate 600 7) 200 (0, 0) (199, 0) = Some data'" "length data' = 600"
    "\<forall>i < 600. data' ! i = (if i < 597 then outline_colour i else replicate 600 7 ! i)"
    by auto
  have "data' = concat (replicate 199 [0, 255, 0]) @ [7, 7, 7]"
  proof (rule nth_equalityI)
    show "length data' = length (concat (replicate 199 [0, 255, 0 :: 8 word]) @ [7, 7, 7])"
      using d(2) by (simp add: length_green)
    fix i assume "i < length data'"
    then have i: "i < 600" using d(2) by simp
    show "data' ! i = (concat (replicate 199 [0, 255, 0]) @ [7, 7, 7]) ! i"
    proof (cases "i < 597")
      case True
      then show ?thesis using d(3) i by (simp add: nth_append length_green nth_green)
    next
      case False
      then consider "i = 597" | "i = 598" | "i = 599" using i by linarith
      then show ?thesis using d(3) by cases (simp_all add: nth_append length_green)
    qed
  qed
  then show ?thesis using d(1) by simp
qed


text \<open>
  Claim C7, as the code has it. The clip-space segment from \<open>(-1,1)\<close> to \<open>(1,1)\<close>, which the
  screen conversion of a 200-pixel-wide image maps to the pixels \<open>(0,0)\<close> and \<open>(199,0)\<close>, is
  accepted unchanged by the clipper. \<open>DrawLine\<close> from \<open>(0,0)\<close> to \<open>(199,0)\<close> in a buffer that
  holds at least one row of 200 pixels then writes the outline colour to the 199 pixels
  \<open>x = 0 .. 198\<close> of row 0 and leaves every other byte as it was: the loop runs while
  \<open>x < x1\<close>, so the pixel of the far endpoint is not plotted.
\<close>
theorem DrawLine_scenario_D_plots_199_pixels:
  "ClipToViewPort (- 1, - 1, 1, 1) (- 1, 1) (1, 1) = Some (Endpoints (- 1, 1) (1, 1)) \<and>
   ToScreen 200 height (- 1, 1) = Some (0, 0) \<and>
   ToScreen 200 height (1, 1) = Some (199, 0) \<and>
   (600 \<le> length data \<longrightarrow>
      (\<exists>data'. DrawLine data 200 (0, 0) (199, 0) = Some data' \<and> length data' = length data \<and>
         (\<forall>i < length data. data' ! i = (if i < 3 * 199 then outline_colour i else data ! i))))"
proof (intro conjI impI)
  show "ClipToViewPort (- 1, - 1, 1, 1) (- 1, 1) (1, 1) = Some (Endpoints (- 1, 1) (1, 1))"
    by (rule ClipToViewPort_inside) simp_all
  show "ToScreen 200 height (- 1, 1) = Some (0, 0)" by (rule ToScreen_scenario_D(1))
  show "ToScreen 200 height (1, 1) = Some (199, 0)" by (rule ToScreen_scenario_D(2))
  assume "600 \<le> length data"
  from DrawLine_row0[OF this]
  show "\<exists>data'. DrawLine data 200 (0, 0) (199, 0) = Some data' \<and> length data' = length data \<and>
         (\<forall>i < length data. data' ! i = (if i < 3 * 199 then outline_colour i else data ! i))"
    by simp
qed

theorem DrawLine_scenario_D_plots_199_pixels_witness:
  "600 \<le> length (replicate 600 (7 :: 8 word)) \<and>
   (\<exists>data'. DrawLine (replicate 600 7) 200 (0, 0) (199, 0) = Some data' \<and>
      data' ! 594 = 0 \<and> data' ! 595 = 255 \<and> data' ! 596 = 0 \<and>
      data' ! 597 = 7 \<and> data' ! 598 = 7 \<and> data' ! 599 = 7)"
  using DrawLine_scenario_D_plots_199_pixels[of 200 "replicate 600 7"]
  by (auto simp add: outline_colour_def)

text \<open>
  On a one-row image of 200 pixels filled with the value 7 the result is 199 green pixels
  followed by the untouched pixel at \<open>x = 199\<close>: not 200 plotted pixels.
\<close>
theorem DrawLine_scenario_D_counterexample:
  "DrawLine (replicate 600 7) 200 (0, 0) (199, 0) =
     Some (concat (replicate 199 [0, 255, 0]) @ [7, 7, 7]) \<and>
   length (concat (replicate 199 [0, 255, 0 :: 8 word])) = 3 * 199"
  by (simp add: DrawLine_example length_green)


subsection \<open>The screen conversion of the full-projection path\<close>

lemma of_uint32_uint: "of_uint32 w = real_of_int (uint w)"
  unfolding of_uint32_def by (metis of_int_of_nat_eq of_nat_unat)

lemma trunc_of_int: "trunc_toward_zero (real_of_int k) = k"
  by (simp add: trunc_toward_zero_def)

lemma to_uint32_of_uint32: "to_uint32 (of_uint32 u) = Some u"
proof -
  have "(- (2 ^ 63) :: int) \<le> 0" by simp
  then have a: "- (2 ^ 63) \<le> uint u" using uint_ge_0[of u] by (rule order_trans)
  have b: "uint u < 2 ^ 63" using uint_lt2p[of u] by simp
  show ?thesis
    unfolding of_uint32_uint to_uint32_def trunc_of_int using a b by simp
qed

lemma to_uint32_floor:
  assumes "0 \<le> v" "v < 2 ^ 32"
  shows "to_uint32 v = Some (word_of_int \<lfloor>v\<rfloor>)"
    and "uint (word_of_int \<lfloor>v\<rfloor> :: 32 word) = \<lfloor>v\<rfloor>"
    and "of_uint32 (word_of_int \<lfloor>v\<rfloor>) = real_of_int \<lfloor>v\<rfloor>"
proof -
  have r: "representable \<lfloor>v\<rfloor>" using assms by (simp add: representable_def floor_less_iff)
  show "to_uint32 v = Some (word_of_int \<lfloor>v\<rfloor>)" using assms by (rule to_uint32_cases(2))
  show u: "uint (word_of_int \<lfloor>v\<rfloor> :: 32 word) = \<lfloor>v\<rfloor>" by (rule uint_of_representable[OF r])
  show "of_uint32 (word_of_int \<lfloor>v\<rfloor>) = real_of_int \<lfloor>v\<rfloor>" unfolding of_uint32_uint u ..
qed

lemma clamp_range: "- 1 \<le> clamp v (- 1) 1" "clamp v (- 1) 1 \<le> 1"
  by (simp_all add: clamp_def)

lemma of_uint32_range: "0 \<le> of_uint32 w" "of_uint32 w < 2 ^ 32"
proof -
  show "0 \<le> of_uint32 w" by (simp only: of_uint32_def of_nat_0_le_iff)
  have "unat w < 2 ^ 32" using unsigned_less[of w, where 'a=nat] by simp
  then have "real (unat w) < real (2 ^ 32)" by (simp only: of_nat_less_iff)
  then show "of_uint32 w < 2 ^ 32" by (simp add: of_uint32_def)
qed

lemma scaled_real:
  fixes t W :: real
  assumes "0 \<le> t" "t \<le> 1" "0 \<le> W"
  shows "0 \<le> t * W" "t * W \<le> W"
  using assms by (simp_all add: mult_left_le_one_le)

lemma scaled_range:
  fixes t :: real
  assumes "0 \<le> t" "t \<le> 1"
  shows "0 \<le> t * of_uint32 w" "t * of_uint32 w < 2 ^ 32"
    "real_of_int \<lfloor>t * of_uint32 w\<rfloor> \<le> of_uint32 w" "0 \<le> real_of_int \<lfloor>t * of_uint32 w\<rfloor>"
proof -
  note s = scaled_real[OF assms of_uint32_range(1)[of w]]
  show "0 \<le> t * of_uint32 w" by (rule s(1))
  show "t * of_uint32 w < 2 ^ 32" using s(2) of_uint32_range(2)[of w] by linarith
  have "real_of_int \<lfloor>t * of_uint32 w\<rfloor> \<le> t * of_uint32 w" by (rule of_int_floor_le)
  then show "real_of_int \<lfloor>t * of_uint32 w\<rfloor> \<le> of_uint32 w" using s(2) by linarith
  have "0 \<le> \<lfloor>t * of_uint32 w\<rfloor>" using s(1) by (simp only: zero_le_floor)
  then show "0 \<le> real_of_int \<lfloor>t * of_uint32 w\<rfloor>" by (simp only: of_int_0_le_iff)
qed


lemma convert_coordinate:
  fixes t :: real
  assumes "0 \<le> t" "t \<le> 1"
  shows "to_uint32 (t * of_uint32 w) = Some (word_of_int \<lfloor>t * of_uint32 w\<rfloor>)"
    and "of_uint32 (word_of_int \<lfloor>t * of_uint32 w\<rfloor>) = real_of_int \<lfloor>t * of_uint32 w\<rfloor>"
    and "uint (word_of_int \<lfloor>t * of_uint32 w\<rfloor> :: 32 word) = \<lfloor>t * of_uint32 w\<rfloor>"
  using to_uint32_floor[OF scaled_range(1,2)[OF assms, of w]] by simp_all

lemma max_zero_word: "max 0 (u :: 32 word) = u"
  by (simp add: max_def)

lemma of_uint32_min: "of_uint32 (min a b) = real_of_int (min (uint a) (uint b))"
  unfolding of_uint32_uint uint_min ..

lemma clamp_unit:
  "0 \<le> (clamp v (- 1) 1 + 1) / 2" "(clamp v (- 1) 1 + 1) / 2 \<le> 1"
  "0 \<le> (1 - clamp v (- 1) 1) / 2" "(1 - clamp v (- 1) 1) / 2 \<le> 1"
  using clamp_range[of v] by simp_all

lemma pixel_x_eq: "pixel_x width x = \<lfloor>(clamp x (- 1) 1 + 1) / 2 * of_uint32 width\<rfloor>"
  by (simp only: pixel_x_def of_uint32_def)

lemma pixel_y_eq: "pixel_y height y = \<lfloor>(1 - clamp y (- 1) 1) / 2 * of_uint32 height\<rfloor>"
  by (simp only: pixel_y_def of_uint32_def)

lemma ConvertToScreenCoord_eq:
  "ConvertToScreenCoord width height (min_x, min_y, min_z) (max_x, max_y, max_z) =
     Some ((real_of_int (pixel_x width min_x), real_of_int (pixel_y height min_y), min_z),
           (real_of_int (min (pixel_x width max_x) (uint (width - 1))),
            real_of_int (min (pixel_y height max_y) (uint (height - 1))), max_z))"
proof -
  note cx = convert_coordinate[OF clamp_unit(1,2), of min_x width, folded pixel_x_eq]
  note cy = convert_coordinate[OF clamp_unit(3,4), of min_y height, folded pixel_y_eq]
  note dx = convert_coordinate[OF clamp_unit(1,2), of max_x width, folded pixel_x_eq]
  note dy = convert_coordinate[OF clamp_unit(3,4), of max_y height, folded pixel_y_eq]
  have a: "to_uint32 (real_of_int (pixel_x width min_x)) = Some (word_of_int (pixel_x width min_x))"
    "to_uint32 (real_of_int (pixel_y height min_y)) = Some (word_of_int (pixel_y height min_y))"
    "to_uint32 (real_of_int (pixel_x width max_x)) = Some (word_of_int (pixel_x width max_x))"
    "to_uint32 (real_of_int (pixel_y height max_y)) = Some (word_of_int (pixel_y height max_y))"
    using to_uint32_of_uint32[of "word_of_int (pixel_x width min_x)"]
      to_uint32_of_uint32[of "word_of_int (pixel_y height min_y)"]
      to_uint32_of_uint32[of "word_of_int (pixel_x width max_x)"]
      to_uint32_of_uint32[of "word_of_int (pixel_y height max_y)"]
    unfolding cx(2) cy(2) dx(2) dy(2) by simp_all
  show ?thesis
    unfolding ConvertToScreenCoord_def
    by (simp only: prod.case Let_def cx(1,2) cy(1,2) dx(1,2) dy(1,2) a Option.bind.simps
        max_zero_word of_uint32_min dx(3) dy(3))
qed


text \<open>
  \<open>fully_offscreen\<close> says what its name says: no point of the rectangle of the extrema lies
  in the clip square.
\<close>
lemma fully_offscreen_iff:
  assumes "min_x \<le> max_x" "min_y \<le> max_y"
  shows "fully_offscreen (min_x, min_y, min_z) (max_x, max_y, max_z) \<longleftrightarrow>
           \<not> (\<exists>x y. min_x \<le> x \<and> x \<le> max_x \<and> min_y \<le> y \<and> y \<le> max_y \<and>
                      - 1 \<le> x \<and> x \<le> 1 \<and> - 1 \<le> y \<and> y \<le> 1)"
proof
  assume "fully_offscreen (min_x, min_y, min_z) (max_x, max_y, max_z)"
  then show "\<not> (\<exists>x y. min_x \<le> x \<and> x \<le> max_x \<and> min_y \<le> y \<and> y \<le> max_y \<and>
                      - 1 \<le> x \<and> x \<le> 1 \<and> - 1 \<le> y \<and> y \<le> 1)"
    by (auto simp add: fully_offscreen_def)
next
  assume n: "\<not> (\<exists>x y. min_x \<le> x \<and> x \<le> max_x \<and> min_y \<le> y \<and> y \<le> max_y \<and>
                      - 1 \<le> x \<and> x \<le> 1 \<and> - 1 \<le> y \<and> y \<le> 1)"
  show "fully_offscreen (min_x, min_y, min_z) (max_x, max_y, max_z)"
  proof (rule ccontr)
    assume "\<not> fully_offscreen (min_x, min_y, min_z) (max_x, max_y, max_z)"
    then have b: "- 1 \<le> max_x" "min_x \<le> 1" "- 1 \<le> max_y" "min_y \<le> 1"
      by (simp_all add: fully_offscreen_def)
    let ?x = "max min_x (- 1)" and ?y = "max min_y (- 1)"
    have "min_x \<le> ?x \<and> ?x \<le> max_x \<and> min_y \<le> ?y \<and> ?y \<le> max_y \<and>
          - 1 \<le> ?x \<and> ?x \<le> 1 \<and> - 1 \<le> ?y \<and> ?y \<le> 1"
      using b assms by auto
    then show False using n by blast
  qed
qed

lemma offscreen_discarded:
  assumes "fully_offscreen (min_x, min_y, min_z) (max_x, max_y, max_z)" "min_x \<le> max_x" "min_y \<le> max_y"
  shows "discard_test (min_x, min_y, min_z) (max_x, max_y, max_z)"
  using assms by (auto simp add: fully_offscreen_def discard_test_def)

lemma pixel_bounds:
  "0 \<le> pixel_x width x" "0 \<le> pixel_y height y"
  "width \<noteq> 0 \<Longrightarrow> min (pixel_x width x) (uint (width - 1)) \<le> uint width - 1"
  "height \<noteq> 0 \<Longrightarrow> min (pixel_y height y) (uint (height - 1)) \<le> uint height - 1"
proof -
  show "0 \<le> pixel_x width x"
    unfolding pixel_x_eq using scaled_range(1)[OF clamp_unit(1,2), of x width] by simp
  show "0 \<le> pixel_y height y"
    unfolding pixel_y_eq using scaled_range(1)[OF clamp_unit(3,4), of y height] by simp
  have m: "\<And>w :: 32 word. w \<noteq> 0 \<Longrightarrow> uint (w - 1) = uint w - 1"
  proof -
    fix w :: "32 word" assume "w \<noteq> 0"
    then have "uint w \<noteq> 0" by (simp add: uint_0_iff)
    moreover have "0 \<le> uint w" by (rule uint_ge_0)
    ultimately have "1 \<le> uint w" by linarith
    then have "uint (1 :: 32 word) \<le> uint w" by simp
    then show "uint (w - 1) = uint w - 1" using uint_sub_lem[of 1 w] by simp
  qed
  show "width \<noteq> 0 \<Longrightarrow> min (pixel_x width x) (uint (width - 1)) \<le> uint width - 1"
    using m[of width] by simp
  show "height \<noteq> 0 \<Longrightarrow> min (pixel_y height y) (uint (height - 1)) \<le> uint height - 1"
    using m[of height] by simp
qed


lemma FullBoundingBoxes_item_boxed:
  assumes "\<not> discard_test (min_x, min_y, min_z) (max_x, max_y, max_z)"
  shows "FullBoundingBoxes_item width height l (min_x, min_y, min_z) (max_x, max_y, max_z) =
    Some (Boxed ((new_BoundingBox BBT_FULLBOX2D l)
      \<lparr>center :=
         (real_of_int (pixel_x width min_x) +
            (real_of_int (min (pixel_x width max_x) (uint (width - 1))) -
             real_of_int (pixel_x width min_x)) / 2,
          real_of_int (min (pixel_y height max_y) (uint (height - 1))) +
            (real_of_int (pixel_y height min_y) -
             real_of_int (min (pixel_y height max_y) (uint (height - 1)))) / 2,
          0),
       box_size :=
         (real_of_int (min (pixel_x width max_x) (uint (width - 1))) -
            real_of_int (pixel_x width min_x),
          real_of_int (pixel_y height min_y) -
            real_of_int (min (pixel_y height max_y) (uint (height - 1))),
          0)\<rparr>))"
  using assms
  by (simp only: FullBoundingBoxes_item_def ConvertToScreenCoord_eq if_False option.case prod.case Let_def)

text \<open>
  Claim C8, as the code has it. When the extrema satisfy \<open>|min| > 1\<close> and \<open>|max| > 1\<close> on
  the \<open>x\<close> axis, or on the \<open>y\<close> axis, the object is discarded and no box is produced; every
  fully off-screen object satisfies this test. Otherwise a box is produced from the
  extrema clamped to \<open>[-1,1]\<close> and converted to pixel coordinates, which are never negative,
  the maximum ones being clamped to \<open>width - 1\<close> and \<open>height - 1\<close>.
\<close>
theorem FullBoundingBoxes_discard_and_convert:
  "(discard_test minVertex maxVertex \<longrightarrow>
      FullBoundingBoxes_item width height l minVertex maxVertex = Some Discarded) \<and>
   (fully_offscreen (min_x, min_y, min_z) (max_x, max_y, max_z) \<and> min_x \<le> max_x \<and> min_y \<le> max_y \<longrightarrow>
      discard_test (min_x, min_y, min_z) (max_x, max_y, max_z)) \<and>
   (\<not> discard_test (min_x, min_y, min_z) (max_x, max_y, max_z) \<longrightarrow>
      FullBoundingBoxes_item width height l (min_x, min_y, min_z) (max_x, max_y, max_z) =
        Some (Boxed ((new_BoundingBox BBT_FULLBOX2D l)
          \<lparr>center :=
             (real_of_int (pixel_x width min_x) +
                (real_of_int (min (pixel_x width max_x) (uint (width - 1))) -
                 real_of_int (pixel_x width min_x)) / 2,
              real_of_int (min (pixel_y height max_y) (uint (height - 1))) +
                (real_of_int (pixel_y height min_y) -
                 real_of_int (min (pixel_y height max_y) (uint (height - 1)))) / 2,
              0),
           box_size :=
             (real_of_int (min (pixel_x width max_x) (uint (width - 1))) -
                real_of_int (pixel_x width min_x),
              real_of_int (pixel_y height min_y) -
                real_of_int (min (pixel_y height max_y) (uint (height - 1))),
              0)\<rparr>))) \<and>
   ConvertToScreenCoord width height (min_x, min_y, min_z) (max_x, max_y, max_z) =
     Some ((real_of_int (pixel_x width min_x), real_of_int (pixel_y height min_y), min_z),
           (real_of_int (min (pixel_x width max_x) (uint (width - 1))),
            real_of_int (min (pixel_y height max_y) (uint (height - 1))), max_z)) \<and>
   0 \<le> pixel_x width min_x \<and> 0 \<le> pixel_y height min_y \<and>
   0 \<le> min (pixel_x width max_x) (uint (width - 1)) \<and>
   0 \<le> min (pixel_y height max_y) (uint (height - 1)) \<and>
   (width \<noteq> 0 \<longrightarrow> min (pixel_x width max_x) (uint (width - 1)) \<le> uint width - 1) \<and>
   (height \<noteq> 0 \<longrightarrow> min (pixel_y height max_y) (uint (height - 1)) \<le> uint height - 1)"
proof (intro conjI impI)
  show "discard_test minVertex maxVertex \<Longrightarrow>
      FullBoundingBoxes_item width height l minVertex maxVertex = Some Discarded"
    by (simp add: FullBoundingBoxes_item_def)
  show "fully_offscreen (min_x, min_y, min_z) (max_x, max_y, max_z) \<and> min_x \<le> max_x \<and> min_y \<le> max_y \<Longrightarrow>
      discard_test (min_x, min_y, min_z) (max_x, max_y, max_z)"
    using offscreen_discarded by blast
  show "\<not> discard_test (min_x, min_y, min_z) (max_x, max_y, max_z) \<Longrightarrow>
      FullBoundingBoxes_item width height l (min_x, min_y, min_z) (max_x, max_y, max_z) =
        Some (Boxed ((new_BoundingBox BBT_FULLBOX2D l)
          \<lparr>center :=
             (real_of_int (pixel_x width min_x) +
                (real_of_int (min (pixel_x width max_x) (uint (width - 1))) -
                 real_of_int (pixel_x width min_x)) / 2,
              real_of_int (min (pixel_y height max_y) (uint (height - 1))) +
                (real_of_int (pixel_y height min_y) -
                 real_of_int (min (pixel_y height max_y) (uint (height - 1)))) / 2,
              0),
           box_size :=
             (real_of_int (min (pixel_x width max_x) (uint (width - 1))) -
                real_of_int (pixel_x width min_x),
              real_of_int (pixel_y height min_y) -
                real_of_int (min (pixel_y height max_y) (uint (height - 1))),
              0)\<rparr>))"
    by (rule FullBoundingBoxes_item_boxed)
  show "ConvertToScreenCoord width height (min_x, min_y, min_z) (max_x, max_y, max_z) =
     Some ((real_of_int (pixel_x width min_x), real_of_int (pixel_y height min_y), min_z),
           (real_of_int (min (pixel_x width max_x) (uint (width - 1))),
            real_of_int (min (pixel_y height max_y) (uint (height - 1))), max_z))"
    by (rule ConvertToScreenCoord_eq)
  show "0 \<le> pixel_x width min_x" "0 \<le> pixel_y height min_y" by (rule pixel_bounds)+
  show "0 \<le> min (pixel_x width max_x) (uint (width - 1))"
    using pixel_bounds(1)[of width max_x] by simp
  show "0 \<le> min (pixel_y height max_y) (uint (height - 1))"
    using pixel_bounds(2)[of height max_y] by simp
  show "width \<noteq> 0 \<Longrightarrow> min (pixel_x width max_x) (uint (width - 1)) \<le> uint width - 1"
    by (rule pixel_bounds(3))
  show "height \<noteq> 0 \<Longrightarrow> min (pixel_y height max_y) (uint (height - 1)) \<le> uint height - 1"
    by (rule pixel_bounds(4))
qed

lemma full_box_examples:
  "discard_test (2, 0, 0) (3, 0, 0)" "fully_offscreen (2, 0, 0) (3, 0, 0)"
  "\<not> discard_test (- (1 / 2), - (1 / 2), 0) (1 / 2, 1 / 2, 0)"
  "discard_test (- 2, 0, 0) (2, 0, 0)" "\<not> fully_offscreen (- 2, 0, 0) (2, 0, 0)"
  "pixel_x 200 (- (1 / 2)) = 50" "pixel_x 200 (1 / 2) = 150"
  "pixel_y 200 (- (1 / 2)) = 150" "pixel_y 200 (1 / 2) = 50"
  "pixel_x 200 0 = 100" "pixel_y 200 (- 1) = 200" "pixel_y 200 0 = 100"
  by (simp_all add: discard_test_def fully_offscreen_def pixel_x_def pixel_y_def clamp_def)

theorem FullBoundingBoxes_discard_and_convert_witness:
  "discard_test (2, 0, 0) (3, 0, 0) \<and> fully_offscreen (2, 0, 0) (3, 0, 0) \<and>
   FullBoundingBoxes_item 200 200 1 (2, 0, 0) (3, 0, 0) = Some Discarded \<and>
   \<not> discard_test (- (1 / 2), - (1 / 2), 0) (1 / 2, 1 / 2, 0) \<and>
   FullBoundingBoxes_item 200 200 1 (- (1 / 2), - (1 / 2), 0) (1 / 2, 1 / 2, 0) =
     Some (Boxed ((new_BoundingBox BBT_FULLBOX2D 1)
             \<lparr>center := (100, 100, 0), box_size := (100, 100, 0)\<rparr>)) \<and>
   (200 :: 32 word) \<noteq> 0"
  using FullBoundingBoxes_discard_and_convert[of "(2, 0, 0)" "(3, 0, 0)" 200 200 1 2 0 0 3 0 0]
    FullBoundingBoxes_discard_and_convert[of "(2, 0, 0)" "(3, 0, 0)" 200 200 1
      "- (1 / 2)" "- (1 / 2)" 0 "1 / 2" "1 / 2" 0]
    full_box_examples
  by simp

text \<open>
  The test does not identify exactly the off-screen objects: extrema \<open>-2\<close> and \<open>2\<close> on the
  \<open>x\<close> axis span the whole viewport, and the object is discarded. And the conversion does
  not keep every coordinate inside the image: an object that reaches the bottom edge
  (clip \<open>y = -1\<close>) gets the pixel row 200 in an image of 200 rows.
\<close>
theorem FullBoundingBoxes_straddling_counterexample:
  "discard_test (- 2, 0, 0) (2, 0, 0) \<and> \<not> fully_offscreen (- 2, 0, 0) (2, 0, 0) \<and>
   FullBoundingBoxes_item 200 200 1 (- 2, 0, 0) (2, 0, 0) = Some Discarded \<and>
   ConvertToScreenCoord 200 200 (0, - 1, 0) (1 / 2, 0, 0) = Some ((100, 200, 0), (150, 100, 0))"
  by (simp add: full_box_examples FullBoundingBoxes_item_def ConvertToScreenCoord_eq)


end
